theory Spec2Isabelle
  imports Main "HOL-Library.Word"
begin

section \<open>Data model of \<open>brpc/stream.cpp\<close>\<close>

text \<open>
  The stream layer of \<open>src/brpc/stream.cpp\<close>, embedded function by function.
  \<^item> \<open>size_t\<close>, \<open>uint64_t\<close> and \<open>int64_t\<close> values are \<open>64 word\<close>: \<open>+\<close>, \<open>-\<close> and
    \<open>*\<close> wrap, \<open><\<close> and \<open>\<le>\<close> on words are the unsigned comparisons, \<open>sint\<close> reads a
    word as two's complement where the source compares signed values.
  \<^item> \<open>StreamOptions::min_buf_size\<close> and \<open>max_buf_size\<close> are C \<open>int\<close>s (the source tests
    \<open>max_buf_size <= 0\<close> and casts with \<open>(size_t)\<close>): \<open>32 word\<close>, read with \<open>sint\<close>
    and converted with \<open>scast\<close>.
  \<^item> An \<open>IOBuf\<close> is the byte string it holds. The length of a buffer is a \<open>nat\<close>; where
    the source adds it to a \<open>size_t\<close> counter it is converted with \<open>of_nat\<close>. The byte
    counts local to \<open>CutMessageIntoFileDescriptor\<close> (\<open>len\<close>, \<open>unwritten_data_size\<close>) are
    sums of lengths of buffers held in memory and are kept as \<open>nat\<close>.
  \<^item> Calls into code outside the file (the transport, the bthread runtime, the RPC layer)
    take their result as a parameter of the model; callbacks are returned as events, in
    the order the code makes them.
  \<^item> A dereference of a NULL \<open>_host_socket\<close>, a write past the batch array, a use of a
    freed waiter and a failed \<open>CHECK\<close> under \<open>crash_on_fatal_log\<close> end the function with a
    \<open>fault\<close>.
  \<^item> A call runs from its start to its end before the next one starts: the model
    interleaves whole calls. The clock and the timer thread are outside the model.
\<close>

type_synonym size_t = "64 word"
type_synonym StreamId = "64 word"
type_synonym IOBuf = string

datatype fault = NullDeref | FatalLog | OutOfBounds | UseAfterFree

text \<open>The gflags the file reads, and \<open>crash_on_fatal_log\<close>, the flag of the logging
  library that decides whether a FATAL log line (a failed \<open>CHECK\<close>, \<open>LOG(FATAL)\<close>) aborts
  the process or is only written.\<close>

record Flags =
  socket_max_streams_unconsumed_bytes :: "64 word"
  stream_write_max_segment_size :: "64 word"
  usercode_in_pthread :: bool
  crash_on_fatal_log :: bool

text \<open>Platform error numbers (Linux) used by the file.\<close>

definition EAGAIN :: int where "EAGAIN = 11"
definition ENOMEM :: int where "ENOMEM = 12"
definition EBADF :: int where "EBADF = 9"
definition EINVAL :: int where "EINVAL = 22"
definition EPROTO :: int where "EPROTO = 71"
definition ECONNRESET :: int where "ECONNRESET = 104"
definition ETIMEDOUT :: int where "ETIMEDOUT = 110"

text \<open>\<open>Socket::STREAM_FAKE_FD\<close>, the descriptor a connected stream reports.\<close>

definition STREAM_FAKE_FD :: int where "STREAM_FAKE_FD = 2147483647"

text \<open>\<open>StreamOptions\<close>: the two window bounds, the idle timeout (a \<open>long\<close>), the batch
  size (a \<open>size_t\<close>) and whether a handler is installed (\<open>handler != NULL\<close>).
  \<open>StreamSettings\<close> is what the peer advertised in the handshake.\<close>

record StreamOptions =
  min_buf_size :: "32 word"
  max_buf_size :: "32 word"
  idle_timeout_ms :: "64 word"
  messages_in_batch :: "64 word"
  handler :: bool

record StreamSettings =
  stream_id :: StreamId
  need_feedback :: bool
  writable :: bool

datatype FrameType =
  FRAME_TYPE_UNKNOWN | FRAME_TYPE_RST | FRAME_TYPE_CLOSE | FRAME_TYPE_DATA | FRAME_TYPE_FEEDBACK

record StreamFrameMeta =
  fm_stream_id :: StreamId
  fm_source_stream_id :: StreamId
  frame_type :: FrameType
  has_continuation :: bool
  feedback_consumed_size :: "64 word"

text \<open>A packed stream message, as \<open>policy::PackStreamMessage\<close> appends it to a buffer:
  the frame header and its payload (the byte encoding belongs to the codec).\<close>

type_synonym Frame = "StreamFrameMeta \<times> IOBuf"

text \<open>The host socket as far as the stream touches it: the aggregate counter
  \<open>_total_streams_unconsumed_size\<close> (an \<open>int64_t\<close>) and the buffers handed to
  \<open>Socket::Write\<close>, oldest first.\<close>

record Socket =
  total_streams_unconsumed_size :: "64 word"
  writes :: "Frame list list"

text \<open>\<open>ConnectMeta\<close> and \<open>WritableMeta\<close>; a callback and its opaque argument are
  identified by numbers. \<open>on_connect = None\<close> is the NULL callback.\<close>

record ConnectMeta =
  on_connect :: "nat option"
  connect_arg :: nat
  ec :: int

record WritableMeta =
  on_writable :: nat
  wm_id :: StreamId
  wm_arg :: nat
  new_thread :: bool
  has_timer :: bool
  wm_error_code :: int

text \<open>A task of the consumer queue: the sentinel \<open>TIMEOUT_TASK\<close> or a reassembled
  message.\<close>

datatype Task = TIMEOUT_TASK | Msg IOBuf

text \<open>The fields of \<open>Stream\<close>. \<open>host_socket = None\<close> is the NULL pointer;
  \<open>set_host_socket_flag\<close> is the \<open>std::once_flag\<close> of \<open>SetHostSocket\<close>;
  \<open>fake_socket_failed\<close> records \<open>SetFailed\<close> on the synthetic socket; \<open>pending_buf = None\<close>
  is the NULL reassembly buffer; \<open>writable_wait_list\<close> holds the parked waiters, oldest
  first; \<open>consumer_queue\<close> and \<open>queue_stopped\<close> stand for the execution queue;
  \<open>idle_timer_armed\<close> says whether an idle timer is outstanding.\<close>

record Stream =
  id' :: StreamId
  options :: StreamOptions
  host_socket :: "Socket option"
  set_host_socket_flag :: bool
  fake_socket_failed :: bool
  connected :: bool
  closed :: bool
  error_code :: int
  error_text :: string
  produced :: size_t
  remote_consumed :: size_t
  cur_buf_size :: size_t
  local_consumed :: size_t
  parse_rpc_response :: bool
  pending_buf :: "IOBuf option"
  remote_settings :: StreamSettings
  remote_settings_initialized :: bool
  writable_wait_list :: "WritableMeta list"
  connect_meta :: ConnectMeta
  consumer_queue :: "Task list"
  queue_stopped :: bool
  idle_timer_armed :: bool


text \<open>How a callback is run: on a new bthread started in the background or urgently,
  or by the calling task itself.\<close>

datatype bthread_attr_t = BTHREAD_ATTR_PTHREAD | BTHREAD_ATTR_NORMAL

datatype Dispatch = Background bthread_attr_t | Urgent bthread_attr_t | SameTask

text \<open>The callbacks the file invokes: the connect callback \<open>on_connect(fd, error, arg)\<close>,
  the writable callback \<open>on_writable(id, arg, error_code)\<close> and the four methods of the
  stream's handler.\<close>

datatype Call =
    on_connect_call nat int int nat
  | on_writable_call nat StreamId nat int
  | on_received_messages StreamId "IOBuf list"
  | on_idle_timeout StreamId
  | on_failed StreamId int string
  | on_closed StreamId

type_synonym Event = "Dispatch \<times> Call"

text \<open>\<open>CHECK(c)\<close>, \<open>CHECK_EQ\<close> and \<open>LOG(FATAL)\<close> (which is \<open>CHECK(false)\<close>): a FATAL log
  line, which aborts the process when \<open>crash_on_fatal_log\<close> is set and only logs
  otherwise.\<close>

definition CHECK :: "Flags \<Rightarrow> bool \<Rightarrow> fault + 'a \<Rightarrow> fault + 'a" where
  "CHECK fl c k = (if \<not> c \<and> crash_on_fatal_log fl then Inl FatalLog else k)"

definition usercode_attr :: "Flags \<Rightarrow> bthread_attr_t" where
  "usercode_attr fl =
     (if usercode_in_pthread fl then BTHREAD_ATTR_PTHREAD else BTHREAD_ATTR_NORMAL)"

section \<open>Construction\<close>

text \<open>\<open>Stream::Stream()\<close> (lines 45-63). \<open>Create\<close> assigns \<open>_options\<close> right after the
  constructor ran, so the options are passed in here. An unset \<open>StreamSettings\<close> message
  reads as stream id 0 with neither flag set.\<close>

definition Stream_ctor :: "StreamOptions \<Rightarrow> Stream" where
  "Stream_ctor opts =
     \<lparr> id' = 0, options = opts, host_socket = None, set_host_socket_flag = False,
       fake_socket_failed = False, connected = False, closed = False, error_code = 0,
       error_text = [], produced = 0, remote_consumed = 0, cur_buf_size = 0,
       local_consumed = 0, parse_rpc_response = False, pending_buf = None,
       remote_settings = \<lparr> stream_id = 0, need_feedback = False, writable = False \<rparr>,
       remote_settings_initialized = False, writable_wait_list = [],
       connect_meta = \<lparr> on_connect = None, connect_arg = 0, ec = 0 \<rparr>,
       consumer_queue = [], queue_stopped = False, idle_timer_armed = False \<rparr>"

text \<open>What the runtime answers while a stream is created: the result of
  \<open>bthread_id_list_init\<close>, of \<open>execution_queue_start\<close>, and the id \<open>Socket::Create\<close>
  hands out (\<open>None\<close> when it fails).\<close>

record CreateEnv =
  id_list_init_rc :: int
  execution_queue_start_rc :: int
  socket_create :: "StreamId option"

text \<open>\<open>Stream::Create\<close> (lines 77-126); \<open>None\<close> is the return value -1. Addressing the
  socket just created (line 121) is taken to succeed.\<close>

definition Create ::
  "Flags \<Rightarrow> StreamOptions \<Rightarrow> StreamSettings option \<Rightarrow> bool \<Rightarrow> CreateEnv
     \<Rightarrow> fault + Stream option" where
  "Create fl opts remote parse env =
     (let s0 = Stream_ctor opts;
          s1 = s0\<lparr> cur_buf_size :=
                 (if 0 < sint (max_buf_size opts) then scast (max_buf_size opts) else 0) \<rparr>;
          s2 = (if 0 < sint (max_buf_size opts)
                   \<and> sint (max_buf_size opts) < sint (min_buf_size opts)
                then s1\<lparr> options := (options s1)\<lparr> min_buf_size := 0 \<rparr> \<rparr>
                else s1);
          s3 = (if 0 < sint (socket_max_streams_unconsumed_bytes fl)
                   \<and> 0 < sint (min_buf_size (options s2))
                then s2\<lparr> cur_buf_size := scast (min_buf_size (options s2)) \<rparr>
                else s2);
          s4 = (case remote of
                  None \<Rightarrow> s3
                | Some r \<Rightarrow> s3\<lparr> remote_settings := r, remote_settings_initialized := True \<rparr>);
          s5 = s4\<lparr> parse_rpc_response := parse \<rparr>
      in if id_list_init_rc env \<noteq> 0 then Inr None
         else if execution_queue_start_rc env \<noteq> 0 then CHECK fl False (Inr None)
         else (case socket_create env of
                 None \<Rightarrow> Inr None
               | Some fake_sock_id \<Rightarrow> Inr (Some (s5\<lparr> id' := fake_sock_id \<rparr>))))"

section \<open>Flow control on the sending side\<close>

text \<open>\<open>Stream::AppendIfNotFull\<close>, the block under \<open>_congestion_control_mutex\<close>
  (lines 320-334): \<open>None\<close> is the early \<open>return 1\<close> of a full window, otherwise the
  state the function goes on with.\<close>

definition AppendIfNotFull_admit :: "IOBuf \<Rightarrow> Stream \<Rightarrow> Stream option" where
  "AppendIfNotFull_admit data s =
     (if 0 < cur_buf_size s then
        (if remote_consumed s + cur_buf_size s \<le> produced s then None
         else Some (s\<lparr> produced := produced s + of_nat (length data) \<rparr>))
      else Some s)"

text \<open>\<open>Stream::AppendIfNotFull\<close> (lines 318-352). \<open>write_rc\<close> is what
  \<open>_fake_socket_weak_ref->Write\<close> returns. The result is the return value and the
  stream afterwards.\<close>

definition AppendIfNotFull :: "Flags \<Rightarrow> IOBuf \<Rightarrow> int \<Rightarrow> Stream \<Rightarrow> fault + (int \<times> Stream)" where
  "AppendIfNotFull fl data write_rc s =
     (case AppendIfNotFull_admit data s of
        None \<Rightarrow> Inr (1, s)
      | Some s1 \<Rightarrow>
          (let data_length = (of_nat (length data) :: size_t) in
           if write_rc \<noteq> 0 then Inr (- 1, s1\<lparr> produced := produced s1 - data_length \<rparr>)
           else if 0 < sint (socket_max_streams_unconsumed_bytes fl) then
             (case host_socket s1 of
                None \<Rightarrow> Inl NullDeref
              | Some h \<Rightarrow>
                  Inr (0, s1\<lparr> host_socket := Some (h\<lparr> total_streams_unconsumed_size :=
                                total_streams_unconsumed_size h + data_length \<rparr>) \<rparr>))
           else Inr (0, s1)))"

text \<open>The adaptive sizing of \<open>SetRemoteConsumed\<close> (lines 367-380): the value of
  \<open>_cur_buf_size\<close> afterwards, given the aggregate counter \<open>total_size\<close> as just decremented
  and the new \<open>remote_consumed\<close> value.\<close>

definition adapt_cur_buf_size :: "Flags \<Rightarrow> 64 word \<Rightarrow> size_t \<Rightarrow> Stream \<Rightarrow> size_t" where
  "adapt_cur_buf_size fl total_size new_remote_consumed s =
     (if sint (socket_max_streams_unconsumed_bytes fl) < sint total_size then
        (if 0 < sint (min_buf_size (options s)) then scast (min_buf_size (options s))
         else cur_buf_size s div 2)
      else if new_remote_consumed + cur_buf_size s \<le> produced s
              \<and> (sint (max_buf_size (options s)) \<le> 0
                   \<or> cur_buf_size s < scast (max_buf_size (options s))) then
        (if 0 < sint (max_buf_size (options s))
            \<and> scast (max_buf_size (options s)) < cur_buf_size s * 2
         then scast (max_buf_size (options s))
         else cur_buf_size s * 2)
      else cur_buf_size s)"

text \<open>\<open>Stream::SetRemoteConsumed\<close> (lines 354-393). The result is the stream afterwards
  and \<open>tmplist\<close>, the waiters detached from the wait list, which
  \<open>bthread_id_list_reset(&tmplist, 0)\<close> wakes with error code 0.\<close>

definition SetRemoteConsumed ::
  "Flags \<Rightarrow> size_t \<Rightarrow> Stream \<Rightarrow> fault + (Stream \<times> WritableMeta list)" where
  "SetRemoteConsumed fl new_remote_consumed s =
     CHECK fl (0 < cur_buf_size s)
     (if new_remote_consumed \<le> remote_consumed s then Inr (s, [])
      else
        (let was_full = (remote_consumed s + cur_buf_size s \<le> produced s)
         in case (if 0 < sint (socket_max_streams_unconsumed_bytes fl) then
                    (case host_socket s of
                       None \<Rightarrow> Inl NullDeref
                     | Some h \<Rightarrow>
                         (let total_size = total_streams_unconsumed_size h
                                             - (new_remote_consumed - remote_consumed s)
                          in Inr (s\<lparr> host_socket :=
                                        Some (h\<lparr> total_streams_unconsumed_size := total_size \<rparr>),
                                      cur_buf_size :=
                                        adapt_cur_buf_size fl total_size new_remote_consumed s \<rparr>)))
                  else Inr s) of
              Inl e \<Rightarrow> Inl e
            | Inr s1 \<Rightarrow>
                (let s2 = s1\<lparr> remote_consumed := new_remote_consumed \<rparr>;
                     is_full = (remote_consumed s2 + cur_buf_size s2 \<le> produced s2)
                 in if was_full \<and> \<not> is_full
                    then Inr (s2\<lparr> writable_wait_list := [] \<rparr>, writable_wait_list s2)
                    else Inr (s2, []))))"

section \<open>Connection state and close\<close>

text \<open>\<open>Stream::RunOnConnect\<close> (lines 226-235): the call it makes for a copy of the connect
  meta with callback \<open>f\<close>.\<close>

definition RunOnConnect :: "nat \<Rightarrow> nat \<Rightarrow> int \<Rightarrow> Call" where
  "RunOnConnect f arg e =
     (if e = 0 then on_connect_call f STREAM_FAKE_FD 0 arg else on_connect_call f (- 1) e arg)"

text \<open>\<open>Stream::TriggerOnConnectIfNeed\<close> (lines 301-316). \<open>start_rc\<close> is what
  \<open>bthread_start_urgent\<close> returns.\<close>

definition TriggerOnConnectIfNeed :: "Flags \<Rightarrow> int \<Rightarrow> Stream \<Rightarrow> fault + Event list" where
  "TriggerOnConnectIfNeed fl start_rc s =
     (case on_connect (connect_meta s) of
        None \<Rightarrow> Inr []
      | Some f \<Rightarrow>
          (let call = RunOnConnect f (connect_arg (connect_meta s)) (ec (connect_meta s))
           in if start_rc \<noteq> 0 then CHECK fl False (Inr [(SameTask, call)])
              else Inr [(Urgent BTHREAD_ATTR_NORMAL, call)]))"

text \<open>\<open>Stream::StartIdleTimer\<close> and \<open>Stream::StopIdleTimer\<close> (lines 667-686). The clock
  and the timer thread are outside the model: the stream only records whether a timer
  is outstanding. A failing \<open>bthread_timer_add\<close> is only logged by the source.\<close>

definition StartIdleTimer :: "Stream \<Rightarrow> Stream" where
  "StartIdleTimer s =
     (if sint (idle_timeout_ms (options s)) < 0 then s else s\<lparr> idle_timer_armed := True \<rparr>)"

definition StopIdleTimer :: "Stream \<Rightarrow> Stream" where
  "StopIdleTimer s =
     (if sint (idle_timeout_ms (options s)) < 0 then s else s\<lparr> idle_timer_armed := False \<rparr>)"

text \<open>\<open>Stream::SetConnected\<close> (lines 265-299); \<open>None\<close> is the NULL settings pointer of
  the server side.\<close>

definition SetConnected ::
  "Flags \<Rightarrow> int \<Rightarrow> StreamSettings option \<Rightarrow> Stream \<Rightarrow> fault + (Stream \<times> Event list)" where
  "SetConnected fl start_rc remote s =
     (if closed s then Inr (s, [])
      else if connected s then CHECK fl False (Inr (s, []))
      else
        CHECK fl (host_socket s \<noteq> None)
        (CHECK fl (case remote of None \<Rightarrow> remote_settings_initialized s
                                | Some _ \<Rightarrow> \<not> remote_settings_initialized s)
        (let s1 = (case remote of
                     None \<Rightarrow> s
                   | Some r \<Rightarrow> s\<lparr> remote_settings := r, remote_settings_initialized := True \<rparr>);
             s2 = s1\<lparr> connected := True, connect_meta := (connect_meta s1)\<lparr> ec := 0 \<rparr> \<rparr>
         in case TriggerOnConnectIfNeed fl start_rc s2 of
              Inl f \<Rightarrow> Inl f
            | Inr evs \<Rightarrow> Inr (if remote = None then StartIdleTimer s2 else s2, evs))))"

text \<open>\<open>Stream::Close\<close> (lines 688-710). \<open>reason\<close> is the text that
  \<open>butil::string_vappendf\<close> renders from \<open>reason_fmt\<close> and its arguments; it is appended
  to \<open>_error_text\<close>.\<close>

definition Close ::
  "Flags \<Rightarrow> int \<Rightarrow> int \<Rightarrow> string \<Rightarrow> Stream \<Rightarrow> fault + (Stream \<times> Event list)" where
  "Close fl start_rc code reason s =
     (let s1 = s\<lparr> fake_socket_failed := True \<rparr>
      in if closed s1 then Inr (s1, [])
         else
           (let s2 = s1\<lparr> closed := True, error_code := code,
                         error_text := error_text s1 @ reason \<rparr>
            in if connected s2 then Inr (s2, [])
               else
                 (let s3 = s2\<lparr> connect_meta := (connect_meta s2)\<lparr> ec := ECONNRESET \<rparr> \<rparr>
                  in case TriggerOnConnectIfNeed fl start_rc s3 of
                       Inl f \<Rightarrow> Inl f
                     | Inr evs \<Rightarrow> Inr (s3, evs))))"

section \<open>Waiting for credit\<close>

text \<open>\<open>Stream::RunOnWritable\<close> (lines 395-400).\<close>

definition RunOnWritable :: "WritableMeta \<Rightarrow> Call" where
  "RunOnWritable wm = on_writable_call (on_writable wm) (wm_id wm) (wm_arg wm) (wm_error_code wm)"

text \<open>\<open>Stream::TriggerOnWritable\<close> (lines 402-422). \<open>start_rc\<close> is what
  \<open>bthread_start_background\<close> returns.\<close>

definition TriggerOnWritable :: "Flags \<Rightarrow> int \<Rightarrow> WritableMeta \<Rightarrow> int \<Rightarrow> fault + Event" where
  "TriggerOnWritable fl start_rc wm code =
     (let wm1 = wm\<lparr> wm_error_code := code \<rparr>
      in if new_thread wm1 then
           (if start_rc \<noteq> 0 then CHECK fl False (Inr (SameTask, RunOnWritable wm1))
            else Inr (Background (usercode_attr fl), RunOnWritable wm1))
         else Inr (SameTask, RunOnWritable wm1))"

text \<open>What the bthread runtime answers during a wait: the results of
  \<open>bthread_id_create\<close>, \<open>bthread_timer_add\<close> and \<open>bthread_start_background\<close>.\<close>

record WaitEnv =
  id_create_rc :: int
  timer_add_rc :: int
  start_background_rc :: int

text \<open>\<open>Stream::Wait(on_writable, arg, due_time, new_thread, join_id)\<close> (lines 429-470).
  \<open>due\<close> says whether \<open>due_time\<close> is given. The result is the stream, the callbacks run
  and whether \<open>join_id\<close> was set. When the timer cannot be added the waiter is
  triggered and freed at once, and the code still goes on to the credit check with the
  freed waiter.\<close>

definition Wait ::
  "Flags \<Rightarrow> WaitEnv \<Rightarrow> nat \<Rightarrow> nat \<Rightarrow> bool \<Rightarrow> bool \<Rightarrow> Stream
     \<Rightarrow> fault + (Stream \<times> Event list \<times> bool)" where
  "Wait fl env f arg due nt s =
     (let wm = \<lparr> on_writable = f, wm_id = id' s, wm_arg = arg, new_thread = nt,
                 has_timer = False, wm_error_code = 0 \<rparr>
      in if id_create_rc env \<noteq> 0 then
           CHECK fl False
             (Inr (s, [(SameTask, RunOnWritable (wm\<lparr> wm_error_code := id_create_rc env \<rparr>))],
                   False))
         else
           (let wm1 = (if due then wm\<lparr> has_timer := True \<rparr> else wm);
                not_full = (\<not> 0 < cur_buf_size s
                              \<or> produced s < remote_consumed s + cur_buf_size s)
            in if due \<and> timer_add_rc env \<noteq> 0 then
                 (case TriggerOnWritable fl (start_background_rc env) wm1 (timer_add_rc env) of
                    Inl e \<Rightarrow> Inl e
                  | Inr ev \<Rightarrow>
                      if not_full then Inl UseAfterFree
                      else CHECK fl False (Inr (s, [ev], True)))
               else if not_full then
                 (case TriggerOnWritable fl (start_background_rc env) wm1 0 of
                    Inl e \<Rightarrow> Inl e
                  | Inr ev \<Rightarrow> Inr (s, [ev], True))
               else Inr (s\<lparr> writable_wait_list := writable_wait_list s @ [wm1] \<rparr>, [], True)))"

text \<open>\<open>OnWritable\<close> (lines 477-479) stores the error code in the \<open>int\<close> its argument
  points to; \<open>Stream::Wait(due_time)\<close> (lines 481-489) passes it with a local \<open>rc\<close> and
  then joins the waiter. The caller either gets the code at once or stays blocked until
  the parked waiter is resolved.\<close>

datatype WaitResult = Returned int | Blocked

definition OnWritable :: nat where "OnWritable = 0"

definition Wait_blocking ::
  "Flags \<Rightarrow> WaitEnv \<Rightarrow> bool \<Rightarrow> Stream \<Rightarrow> fault + (Stream \<times> WaitResult)" where
  "Wait_blocking fl env due s =
     (case Wait fl env OnWritable 0 due False s of
        Inl e \<Rightarrow> Inl e
      | Inr (s1, evs, joined) \<Rightarrow>
          Inr (s1, case evs of
                     (d, on_writable_call g i a code) # rest \<Rightarrow> Returned code
                   | _ \<Rightarrow> Blocked))"

section \<open>The public functions\<close>

type_synonym Registry = "StreamId \<rightharpoonup> Stream"

text \<open>Modelled from the spec: the transport's object registry, which owns the StreamIds
  (\<open>Socket::Address\<close> and \<open>Socket::AddressFailedAsWell\<close> are not part of the file).
  \<open>Address\<close> resolves an id that is registered and whose synthetic transport handle has
  not been marked failed; \<open>AddressFailedAsWell\<close> resolves a failed one as well.\<close>

definition Address :: "Registry \<Rightarrow> StreamId \<Rightarrow> Stream option" where
  "Address reg i =
     (case reg i of None \<Rightarrow> None | Some s \<Rightarrow> if fake_socket_failed s then None else Some s)"

definition AddressFailedAsWell :: "Registry \<Rightarrow> StreamId \<Rightarrow> Stream option" where
  "AddressFailedAsWell reg i = reg i"

text \<open>\<open>StreamWrite\<close> (lines 760-772). \<open>errno'\<close> is the value of \<open>errno\<close> after a failed
  write.\<close>

definition StreamWrite ::
  "Flags \<Rightarrow> Registry \<Rightarrow> StreamId \<Rightarrow> IOBuf \<Rightarrow> int \<Rightarrow> int \<Rightarrow> fault + (int \<times> Registry)" where
  "StreamWrite fl reg i message write_rc errno' =
     (case Address reg i of
        None \<Rightarrow> Inr (EINVAL, reg)
      | Some s \<Rightarrow>
          (case AppendIfNotFull fl message write_rc s of
             Inl e \<Rightarrow> Inl e
           | Inr (rc, s1) \<Rightarrow>
               Inr (if rc = 0 then 0 else if rc = 1 then EAGAIN else errno', reg(i \<mapsto> s1))))"

text \<open>\<open>StreamWait\<close> with a callback (lines 774-796).\<close>

definition StreamWait ::
  "Flags \<Rightarrow> WaitEnv \<Rightarrow> Registry \<Rightarrow> StreamId \<Rightarrow> bool \<Rightarrow> nat \<Rightarrow> nat
     \<Rightarrow> fault + (Registry \<times> Event list)" where
  "StreamWait fl env reg i due f arg =
     (case Address reg i of
        None \<Rightarrow>
          (let wm = \<lparr> on_writable = f, wm_id = i, wm_arg = arg, new_thread = False,
                      has_timer = False, wm_error_code = EINVAL \<rparr>
           in if start_background_rc env \<noteq> 0
              then CHECK fl False (Inr (reg, [(SameTask, RunOnWritable wm)]))
              else Inr (reg, [(Background (usercode_attr fl), RunOnWritable wm)]))
      | Some s \<Rightarrow>
          (case Wait fl env f arg due True s of
             Inl e \<Rightarrow> Inl e
           | Inr (s1, evs, joined) \<Rightarrow> Inr (reg(i \<mapsto> s1), evs)))"

text \<open>The blocking \<open>StreamWait\<close> (lines 798-805).\<close>

definition StreamWait_blocking ::
  "Flags \<Rightarrow> WaitEnv \<Rightarrow> Registry \<Rightarrow> StreamId \<Rightarrow> bool \<Rightarrow> fault + (Registry \<times> WaitResult)" where
  "StreamWait_blocking fl env reg i due =
     (case Address reg i of
        None \<Rightarrow> Inr (reg, Returned EINVAL)
      | Some s \<Rightarrow>
          (case Wait_blocking fl env due s of
             Inl e \<Rightarrow> Inl e
           | Inr (s1, r) \<Rightarrow> Inr (reg(i \<mapsto> s1), r)))"


text \<open>\<open>Stream::SetFailed(id, error_code, reason_fmt, ...)\<close> (lines 712-724) and
  \<open>StreamClose\<close> (lines 807-809). \<open>start_rc\<close> is the answer \<open>bthread_start_urgent\<close> would
  give to the close.\<close>

definition SetFailed ::
  "Flags \<Rightarrow> int \<Rightarrow> Registry \<Rightarrow> StreamId \<Rightarrow> int \<Rightarrow> string
     \<Rightarrow> fault + (int \<times> Registry \<times> Event list)" where
  "SetFailed fl start_rc reg i code reason =
     (case AddressFailedAsWell reg i of
        None \<Rightarrow> Inr (0, reg, [])
      | Some s \<Rightarrow>
          (case Close fl start_rc code reason s of
             Inl e \<Rightarrow> Inl e
           | Inr (s1, evs) \<Rightarrow> Inr (0, reg(i \<mapsto> s1), evs)))"

definition StreamClose ::
  "Flags \<Rightarrow> int \<Rightarrow> Registry \<Rightarrow> StreamId \<Rightarrow> fault + (int \<times> Registry \<times> Event list)" where
  "StreamClose fl start_rc reg i = SetFailed fl start_rc reg i 0 ''Local close''"

section \<open>Frame I/O\<close>

text \<open>\<open>Stream::WriteToHostSocket\<close> (lines 216-218), on the host socket: the buffer is
  handed to \<open>Socket::Write\<close>; the source does not use the result.\<close>

definition WriteToHostSocket :: "Frame list \<Rightarrow> Socket \<Rightarrow> Socket" where
  "WriteToHostSocket b h = h\<lparr> writes := writes h @ [b] \<rparr>"

text \<open>The local variables of \<open>CutMessageIntoFileDescriptor\<close>: the buffer \<open>out\<close> of packed
  frames not yet written, \<open>len\<close>, \<open>unwritten_data_size\<close>, and the host socket.\<close>

record CutState =
  out :: "Frame list"
  len :: nat
  unwritten_data_size :: nat
  host :: Socket

text \<open>The segmenting loop \<open>while (has_continuation)\<close> (lines 178-191), entered with
  \<open>has_continuation = true\<close>, so the body runs at least once. \<open>cutn\<close> moves the first
  \<open>M\<close> bytes (or all, if fewer) of \<open>data\<close> into \<open>segment_buf\<close>. With \<open>M = 0\<close> nothing is
  ever cut and the loop does not end: the result is \<open>None\<close>.\<close>

partial_function (option) cut_segments ::
  "nat \<Rightarrow> StreamFrameMeta \<Rightarrow> IOBuf \<Rightarrow> CutState \<Rightarrow> CutState option" where
  "cut_segments M fm data st =
     (let segment_buf = take M data;
          data1 = drop M data;
          has_cont = (data1 \<noteq> []);
          out1 = out st @ [(fm\<lparr> has_continuation := has_cont \<rparr>, segment_buf)];
          st1 = st\<lparr> out := [], len := len st + length segment_buf,
                     host := WriteToHostSocket out1 (host st) \<rparr>
      in if has_cont then cut_segments M fm data1 st1 else Some st1)"

text \<open>The loop over \<open>data_list\<close> (lines 166-208).\<close>

definition flush_out :: "CutState \<Rightarrow> CutState" where
  "flush_out st =
     st\<lparr> host := WriteToHostSocket (out st) (host st), unwritten_data_size := 0, out := [] \<rparr>"

fun cut_data_list ::
  "nat \<Rightarrow> StreamFrameMeta \<Rightarrow> IOBuf list \<Rightarrow> CutState \<Rightarrow> CutState option" where
  "cut_data_list M fm [] st = Some st"
| "cut_data_list M fm (data # rest) st =
     (if M < length data then
        (case cut_segments M fm data
                (if unwritten_data_size st \<noteq> 0 then flush_out st else st) of
           None \<Rightarrow> None
         | Some st2 \<Rightarrow> cut_data_list M fm rest st2)
      else
        (let st1 = (if M < unwritten_data_size st + length data then flush_out st else st)
         in cut_data_list M fm rest
              (st1\<lparr> unwritten_data_size := unwritten_data_size st1 + length data,
                    out := out st1 @ [(fm\<lparr> has_continuation := False \<rparr>, data)],
                    len := len st1 + length data \<rparr>)))"

text \<open>\<open>Stream::CutMessageIntoFileDescriptor\<close> (lines 147-214). The result is the return
  value, the \<open>errno\<close> it sets and the stream; \<open>None\<close> when the call does not return.\<close>

definition CutMessageIntoFileDescriptor ::
  "Flags \<Rightarrow> IOBuf list \<Rightarrow> Stream \<Rightarrow> (fault + (int \<times> int option \<times> Stream)) option" where
  "CutMessageIntoFileDescriptor fl data_list s =
     (case host_socket s of
        None \<Rightarrow> Some (CHECK fl False (Inr (- 1, Some EBADF, s)))
      | Some h \<Rightarrow>
          if \<not> writable (remote_settings s) then Some (Inr (- 1, Some EBADF, s))
          else
            (case cut_data_list (unat (stream_write_max_segment_size fl))
                    \<lparr> fm_stream_id = stream_id (remote_settings s),
                      fm_source_stream_id = id' s, frame_type = FRAME_TYPE_DATA,
                      has_continuation = False, feedback_consumed_size = 0 \<rparr>
                    data_list
                    \<lparr> out = [], len = 0, unwritten_data_size = 0, host = h \<rparr> of
               None \<Rightarrow> None
             | Some st \<Rightarrow>
                 Some (Inr (int (len st), None,
                   s\<lparr> host_socket := Some (if out st \<noteq> [] then WriteToHostSocket (out st) (host st)
                                           else host st) \<rparr>))))"

text \<open>\<open>Stream::SetHostSocket\<close> (lines 642-654): the body runs once per stream
  (\<open>std::call_once\<close>); \<open>add_stream_rc\<close> is what \<open>Socket::AddStream\<close> returns. The function
  returns 0 on every path.\<close>

definition SetHostSocket :: "Flags \<Rightarrow> int \<Rightarrow> Socket \<Rightarrow> Stream \<Rightarrow> fault + Stream" where
  "SetHostSocket fl add_stream_rc sock s =
     (if set_host_socket_flag s then Inr s
      else
        (let s1 = s\<lparr> set_host_socket_flag := True \<rparr>
         in if add_stream_rc \<noteq> 0 then CHECK fl False (Inr s1)
            else Inr (s1\<lparr> host_socket := Some sock \<rparr>)))"

text \<open>Modelled from the spec: the single-consumer queue of fully reassembled messages
  (\<open>bthread::execution_queue_execute\<close> is not part of the file). A running queue takes
  the task at its end and answers 0; a stopped queue refuses it with \<open>EINVAL\<close>.\<close>

definition execution_queue_execute :: "Task \<Rightarrow> Stream \<Rightarrow> int \<times> Stream" where
  "execution_queue_execute t s =
     (if queue_stopped s then (EINVAL, s)
      else (0, s\<lparr> consumer_queue := consumer_queue s @ [t] \<rparr>))"

text \<open>What the runtime answers while a frame is received: the results of
  \<open>Socket::AddStream\<close>, of \<open>bthread_start_urgent\<close> (for a connect callback fired by
  \<open>Close\<close>).\<close>

record ReceiveEnv =
  add_stream_rc :: int
  start_urgent_rc :: int

text \<open>\<open>Stream::OnReceived\<close> (lines 491-535). The result is the return value, the stream,
  the waiters that a FEEDBACK frame released (each is woken with code 0) and the
  callbacks a close has fired.\<close>

definition OnReceived ::
  "Flags \<Rightarrow> ReceiveEnv \<Rightarrow> StreamFrameMeta \<Rightarrow> IOBuf \<Rightarrow> Socket \<Rightarrow> Stream
     \<Rightarrow> fault + (int \<times> Stream \<times> WritableMeta list \<times> Event list)" where
  "OnReceived fl env fm buf sock s =
     (case (if host_socket s = None then SetHostSocket fl (add_stream_rc env) sock s
            else Inr s) of
        Inl e \<Rightarrow> Inl e
      | Inr s1 \<Rightarrow>
          (case frame_type fm of
             FRAME_TYPE_FEEDBACK \<Rightarrow>
               (case SetRemoteConsumed fl (feedback_consumed_size fm) s1 of
                  Inl e \<Rightarrow> Inl e
                | Inr (s2, woken) \<Rightarrow> CHECK fl (buf = []) (Inr (0, s2, woken, [])))
           | FRAME_TYPE_DATA \<Rightarrow>
               (let s2 = s1\<lparr> pending_buf :=
                            Some (case pending_buf s1 of None \<Rightarrow> buf | Some p \<Rightarrow> p @ buf) \<rparr>
                in if \<not> has_continuation fm then
                     (let tmp = (case pending_buf s1 of None \<Rightarrow> buf | Some p \<Rightarrow> p @ buf);
                          (rc, s3) = execution_queue_execute (Msg tmp) (s2\<lparr> pending_buf := None \<rparr>)
                      in if rc \<noteq> 0 then
                           CHECK fl False
                             (case Close fl (start_urgent_rc env) rc ''Fail to push into channel'' s3 of
                                Inl e \<Rightarrow> Inl e
                              | Inr (s4, evs) \<Rightarrow> Inr (0, s4, [], evs))
                         else Inr (0, s3, [], []))
                   else Inr (0, s2, [], []))
           | FRAME_TYPE_RST \<Rightarrow>
               (case Close fl (start_urgent_rc env) ECONNRESET ''Received RST frame'' s1 of
                  Inl e \<Rightarrow> Inl e
                | Inr (s2, evs) \<Rightarrow> Inr (0, s2, [], evs))
           | FRAME_TYPE_CLOSE \<Rightarrow>
               (case Close fl (start_urgent_rc env) 0 ''Received CLOSE frame'' s1 of
                  Inl e \<Rightarrow> Inl e
                | Inr (s2, evs) \<Rightarrow> Inr (0, s2, [], evs))
           | FRAME_TYPE_UNKNOWN \<Rightarrow> Inr (- 1, s1, [], [])))"


section \<open>The delivery pipeline\<close>

text \<open>\<open>class MessageBatcher\<close> (lines 537-572): \<open>mb_storage\<close> holds the first \<open>_size\<close>
  entries of \<open>_storage\<close>; the array has \<open>mb_cap\<close> slots. The handler and the id are read
  from the stream the batcher points to.\<close>

record MessageBatcher =
  mb_storage :: "IOBuf list"
  mb_cap :: size_t
  mb_total_length :: size_t

definition flush :: "Stream \<Rightarrow> MessageBatcher \<Rightarrow> MessageBatcher \<times> Event list" where
  "flush s mb =
     (mb\<lparr> mb_storage := [] \<rparr>,
      if mb_storage mb \<noteq> [] \<and> handler (options s)
      then [(SameTask, on_received_messages (id' s) (mb_storage mb))] else [])"

definition push :: "Stream \<Rightarrow> IOBuf \<Rightarrow> MessageBatcher \<Rightarrow> fault + (MessageBatcher \<times> Event list)" where
  "push s buf mb =
     (let (mb1, evs) = (if length (mb_storage mb) = unat (mb_cap mb) then flush s mb
                        else (mb, []))
      in if unat (mb_cap mb1) \<le> length (mb_storage mb1) then Inl OutOfBounds
         else Inr (mb1\<lparr> mb_storage := mb_storage mb1 @ [buf],
                        mb_total_length := mb_total_length mb1 + of_nat (length buf) \<rparr>, evs))"

text \<open>\<open>Stream::SendFeedback\<close> (lines 631-640).\<close>

definition SendFeedback :: "Stream \<Rightarrow> fault + Stream" where
  "SendFeedback s =
     (let fm = \<lparr> fm_stream_id = stream_id (remote_settings s), fm_source_stream_id = id' s,
                 frame_type = FRAME_TYPE_FEEDBACK, has_continuation = False,
                 feedback_consumed_size = local_consumed s \<rparr>
      in case host_socket s of
           None \<Rightarrow> Inl NullDeref
         | Some h \<Rightarrow> Inr (s\<lparr> host_socket := Some (WriteToHostSocket [(fm, [])] h) \<rparr>))"

text \<open>What \<open>policy::ParseRpcMessage\<close> and the RPC layer answer for the response a client
  stream receives first.\<close>

datatype RpcResponse = ParseFailed | MessageNull | Processed "StreamSettings option"

text \<open>Modelled from the spec: the RPC dispatch machinery that establishes the handshake
  (\<open>policy::ProcessRpcResponse\<close> is not part of the file). After the handshake succeeds
  the RPC layer calls \<open>SetConnected(remote_settings)\<close>; \<open>Processed None\<close> is a response
  that does not connect the stream.\<close>

definition ProcessRpcResponse ::
  "Flags \<Rightarrow> int \<Rightarrow> StreamSettings option \<Rightarrow> Stream \<Rightarrow> fault + (Stream \<times> Event list)" where
  "ProcessRpcResponse fl start_rc accepted s =
     (case accepted of
        None \<Rightarrow> Inr (s, [])
      | Some r \<Rightarrow> SetConnected fl start_rc (Some r) s)"

record ConsumeEnv =
  rpc_response :: RpcResponse
  consume_start_urgent_rc :: int

text \<open>\<open>Stream::HandleRpcResponse\<close> (lines 736-758).\<close>

definition HandleRpcResponse ::
  "Flags \<Rightarrow> ConsumeEnv \<Rightarrow> IOBuf \<Rightarrow> Stream \<Rightarrow> fault + (Stream \<times> Event list)" where
  "HandleRpcResponse fl env response_buffer s =
     CHECK fl (\<not> remote_settings_initialized s)
     (CHECK fl (host_socket s \<noteq> None)
     (case rpc_response env of
        ParseFailed \<Rightarrow>
          CHECK fl False
            (Close fl (consume_start_urgent_rc env) EPROTO
               ''Fail to parse rpc response message'' s)
      | MessageNull \<Rightarrow>
          CHECK fl False (Close fl (consume_start_urgent_rc env) ENOMEM ''Message is NULL'' s)
      | Processed accepted \<Rightarrow>
          (case host_socket s of
             None \<Rightarrow> Inl NullDeref
           | Some h \<Rightarrow> ProcessRpcResponse fl (consume_start_urgent_rc env) accepted s)))"

text \<open>The loop \<open>for (; iter; ++iter)\<close> of \<open>Consume\<close> (lines 603-615), over the tasks of
  one dispatch. The state is the stream, the batcher, \<open>has_timeout_task\<close> and the
  callbacks run so far.\<close>

fun Consume_tasks ::
  "Flags \<Rightarrow> ConsumeEnv \<Rightarrow> Task list \<Rightarrow> Stream \<times> MessageBatcher \<times> bool \<times> Event list
     \<Rightarrow> fault + (Stream \<times> MessageBatcher \<times> bool \<times> Event list)" where
  "Consume_tasks fl env [] st = Inr st"
| "Consume_tasks fl env (TIMEOUT_TASK # iter) (s, mb, has_timeout_task, evs) =
     Consume_tasks fl env iter (s, mb, True, evs)"
| "Consume_tasks fl env (Msg t # iter) (s, mb, has_timeout_task, evs) =
     (if parse_rpc_response s then
        (case HandleRpcResponse fl env t (s\<lparr> parse_rpc_response := False \<rparr>) of
           Inl e \<Rightarrow> Inl e
         | Inr (s1, evs1) \<Rightarrow> Consume_tasks fl env iter (s1, mb, has_timeout_task, evs @ evs1))
      else
        (case push s t mb of
           Inl e \<Rightarrow> Inl e
         | Inr (mb1, evs1) \<Rightarrow> Consume_tasks fl env iter (s, mb1, has_timeout_task, evs @ evs1)))"

text \<open>\<open>Stream::Consume\<close> (lines 574-629). \<open>iter\<close> holds the tasks of this dispatch and
  \<open>stopped\<close> is \<open>iter.is_queue_stopped()\<close>. The result is the return value, the stream
  (\<open>None\<close> once the stream object has been deleted) and the callbacks in the order they
  ran.\<close>

definition Consume ::
  "Flags \<Rightarrow> ConsumeEnv \<Rightarrow> Task list \<Rightarrow> bool \<Rightarrow> Stream
     \<Rightarrow> fault + (int \<times> Stream option \<times> Event list)" where
  "Consume fl env iter stopped s0 =
     (let s = StopIdleTimer s0
      in if stopped then
           Inr (0, None,
             (if handler (options s) then
                (if error_code s \<noteq> 0
                 then [(SameTask, on_failed (id' s) (error_code s) (error_text s))] else [])
                @ [(SameTask, on_closed (id' s))]
              else []))
         else
           (case Consume_tasks fl env iter
                   (s, \<lparr> mb_storage = [], mb_cap = messages_in_batch (options s),
                         mb_total_length = 0 \<rparr>, False, []) of
              Inl e \<Rightarrow> Inl e
            | Inr (s1, mb, has_timeout_task, evs) \<Rightarrow>
                (let evs1 = (if handler (options s1) \<and> has_timeout_task \<and> mb_total_length mb = 0
                             then [(SameTask, on_idle_timeout (id' s1))] else []);
                     (mb1, evs2) = flush s1 mb
                 in if need_feedback (remote_settings s1) \<and> 0 < mb_total_length mb1 then
                      (case SendFeedback
                              (s1\<lparr> local_consumed := local_consumed s1 + mb_total_length mb1 \<rparr>) of
                         Inl e \<Rightarrow> Inl e
                       | Inr s2 \<Rightarrow> Inr (0, Some (StartIdleTimer s2), evs @ evs1 @ evs2))
                    else Inr (0, Some (StartIdleTimer s1), evs @ evs1 @ evs2))))"


section \<open>Runs of calls on one stream\<close>

text \<open>An interleaving of calls on one stream, one call after the other:
  \<open>Write data write_rc\<close> is a call of \<open>AppendIfNotFull\<close> whose transport write returns
  \<open>write_rc\<close>, \<open>Feedback v\<close> a call of \<open>SetRemoteConsumed v\<close>, and \<open>Bind rc sock\<close> the call
  of \<open>SetHostSocket\<close> that binds the stream to its host socket (\<open>rc\<close> is the answer of
  \<open>Socket::AddStream\<close>). A fault ends the run.\<close>

datatype Op = Write IOBuf int | Feedback size_t | Bind int Socket

fun step :: "Flags \<Rightarrow> Op \<Rightarrow> Stream \<Rightarrow> fault + (int \<times> Stream)" where
  "step fl (Write data write_rc) s = AppendIfNotFull fl data write_rc s"
| "step fl (Feedback v) s =
     (case SetRemoteConsumed fl v s of Inl e \<Rightarrow> Inl e | Inr (s1, woken) \<Rightarrow> Inr (0, s1))"
| "step fl (Bind rc sock) s =
     (case SetHostSocket fl rc sock s of Inl e \<Rightarrow> Inl e | Inr s1 \<Rightarrow> Inr (0, s1))"

fun run :: "Flags \<Rightarrow> Op list \<Rightarrow> Stream \<Rightarrow> fault + Stream" where
  "run fl [] s = Inr s"
| "run fl (x # xs) s = (case step fl x s of Inl e \<Rightarrow> Inl e | Inr (rc, s1) \<Rightarrow> run fl xs s1)"

text \<open>A sequence of \<open>SetRemoteConsumed\<close> calls; the result lists the stream after each
  call.\<close>

fun feedbacks :: "Flags \<Rightarrow> size_t list \<Rightarrow> Stream \<Rightarrow> fault + Stream list" where
  "feedbacks fl [] s = Inr []"
| "feedbacks fl (v # vs) s =
     (case SetRemoteConsumed fl v s of
        Inl e \<Rightarrow> Inl e
      | Inr (s1, woken) \<Rightarrow>
          (case feedbacks fl vs s1 of Inl e \<Rightarrow> Inl e | Inr ss \<Rightarrow> Inr (s1 # ss)))"

text \<open>A sequence of \<open>Close(error_code, reason)\<close> calls, each with the answer of
  \<open>bthread_start_urgent\<close> it would get; the result is the stream after the last call and
  the callbacks fired.\<close>

fun closes ::
  "Flags \<Rightarrow> (int \<times> string \<times> int) list \<Rightarrow> Stream \<Rightarrow> fault + (Stream \<times> Event list)" where
  "closes fl [] s = Inr (s, [])"
| "closes fl ((code, reason, start_rc) # cs) s =
     (case Close fl start_rc code reason s of
        Inl e \<Rightarrow> Inl e
      | Inr (s1, evs) \<Rightarrow>
          (case closes fl cs s1 of Inl e \<Rightarrow> Inl e | Inr (s2, evs2) \<Rightarrow> Inr (s2, evs @ evs2)))"

text \<open>The frames of the writes of a host socket, in the order they were written, handed
  one by one to \<open>OnReceived\<close> of the receiving stream.\<close>

fun receive_frames ::
  "Flags \<Rightarrow> ReceiveEnv \<Rightarrow> Frame list \<Rightarrow> Socket \<Rightarrow> Stream \<Rightarrow> fault + Stream" where
  "receive_frames fl env [] sock s = Inr s"
| "receive_frames fl env ((fm, buf) # fs) sock s =
     (case OnReceived fl env fm buf sock s of
        Inl e \<Rightarrow> Inl e
      | Inr (rc, s1, woken, evs) \<Rightarrow> receive_frames fl env fs sock s1)"

text \<open>The messages a list of callbacks hands to \<open>on_received_messages\<close>, in order.\<close>

fun received :: "Event list \<Rightarrow> IOBuf list" where
  "received [] = []"
| "received ((d, on_received_messages i msgs) # evs) = msgs @ received evs"
| "received (ev # evs) = received evs"

text \<open>The payload bytes of the messages among the tasks of one dispatch, as the
  \<open>size_t\<close> sum the batcher keeps.\<close>

fun total_message_length :: "Task list \<Rightarrow> size_t" where
  "total_message_length [] = 0"
| "total_message_length (TIMEOUT_TASK # iter) = total_message_length iter"
| "total_message_length (Msg t # iter) = of_nat (length t) + total_message_length iter"

section \<open>Segmentation as the specification words it\<close>

text \<open>The specification of outbound segmentation: a buffer no longer than \<open>M\<close> is one
  frame with \<open>has_continuation = false\<close>; a longer one is cut into \<open>M\<close>-byte prefixes,
  each a frame with \<open>has_continuation = true\<close> except the last piece, which carries
  \<open>has_continuation = false\<close>.\<close>

function spec_pieces :: "nat \<Rightarrow> IOBuf \<Rightarrow> IOBuf list" where
  "spec_pieces M b =
     (if M = 0 \<or> length b \<le> M then [b] else take M b # spec_pieces M (drop M b))"
  by pat_completeness auto
termination
  by (relation "measure (\<lambda>(M, b). length b)") auto

definition spec_frames :: "nat \<Rightarrow> StreamFrameMeta \<Rightarrow> IOBuf \<Rightarrow> Frame list" where
  "spec_frames M fm b =
     map (\<lambda>piece. (fm\<lparr> has_continuation := True \<rparr>, piece)) (butlast (spec_pieces M b))
       @ [(fm\<lparr> has_continuation := False \<rparr>, last (spec_pieces M b))]"

section \<open>Example streams\<close>

text \<open>The flags and streams of the concrete scenarios: no aggregate pressure limit and a
  segment size of 4, a stream with a window of 10 bytes, and one with flow control
  off.\<close>

definition example_flags :: Flags where
  "example_flags =
     \<lparr> socket_max_streams_unconsumed_bytes = 0, stream_write_max_segment_size = 4,
       usercode_in_pthread = False, crash_on_fatal_log = False \<rparr>"

definition pressure_flags :: Flags where
  "pressure_flags = example_flags\<lparr> socket_max_streams_unconsumed_bytes := 150 \<rparr>"

definition example_options :: "32 word \<Rightarrow> 32 word \<Rightarrow> StreamOptions" where
  "example_options mn mx =
     \<lparr> min_buf_size = mn, max_buf_size = mx, idle_timeout_ms = - 1, messages_in_batch = 128,
       handler = True \<rparr>"

definition example_env :: CreateEnv where
  "example_env = \<lparr> id_list_init_rc = 0, execution_queue_start_rc = 0, socket_create = Some 7 \<rparr>"

definition example_socket :: Socket where
  "example_socket = \<lparr> total_streams_unconsumed_size = 0, writes = [] \<rparr>"

definition example_stream :: "32 word \<Rightarrow> 32 word \<Rightarrow> size_t \<Rightarrow> Stream" where
  "example_stream mn mx window =
     (Stream_ctor (example_options mn mx))\<lparr> id' := 7, cur_buf_size := window \<rparr>"

text \<open>A stream with \<open>min_buf_size = 10\<close> and \<open>max_buf_size = 100\<close> that has filled its
  window of 100 bytes, on a host socket whose streams hold 200 unconsumed bytes.\<close>

definition crowded_stream :: Stream where
  "crowded_stream =
     (example_stream 10 100 100)\<lparr> produced := 100,
        host_socket := Some \<lparr> total_streams_unconsumed_size = 200, writes = [] \<rparr> \<rparr>"


text \<open>A stream with the same bounds and a window of 10 bytes that has produced 50
  bytes, on a host socket whose streams hold 100 unconsumed bytes.\<close>

definition saturated_stream :: Stream where
  "saturated_stream =
     (example_stream 10 100 10)\<lparr> produced := 50,
        host_socket := Some \<lparr> total_streams_unconsumed_size = 100, writes = [] \<rparr> \<rparr>"

text \<open>A stream whose peer asked for feedback, bound to a host socket.\<close>

definition feedback_stream :: Stream where
  "feedback_stream =
     (example_stream 0 10 10)\<lparr> host_socket := Some example_socket,
        remote_settings := \<lparr> stream_id = 9, need_feedback = True, writable = True \<rparr>,
        remote_settings_initialized := True \<rparr>"

text \<open>The two ends of the segmentation scenario: stream 7 sends to stream 9, whose
  handler is installed; \<open>example_frame\<close> is a DATA frame from 7 to 9.\<close>

definition sender_stream :: Stream where
  "sender_stream =
     (example_stream 0 0 0)\<lparr> host_socket := Some example_socket,
        remote_settings := \<lparr> stream_id = 9, need_feedback = False, writable = True \<rparr>,
        remote_settings_initialized := True \<rparr>"

definition receiver_stream :: Stream where
  "receiver_stream = (example_stream 0 0 0)\<lparr> id' := 9, host_socket := Some example_socket \<rparr>"

definition example_frame :: "bool \<Rightarrow> IOBuf \<Rightarrow> Frame" where
  "example_frame cont payload =
     (\<lparr> fm_stream_id = 9, fm_source_stream_id = 7, frame_type = FRAME_TYPE_DATA,
        has_continuation = cont, feedback_consumed_size = 0 \<rparr>, payload)"

section \<open>Evaluating the examples\<close>

declare spec_pieces.simps [simp del]


lemma example_stream_fields:
  "cur_buf_size (example_stream mn mx window) = window"
  "produced (example_stream mn mx window) = 0"
  "remote_consumed (example_stream mn mx window) = 0"
  "local_consumed (example_stream mn mx window) = 0"
  "host_socket (example_stream mn mx window) = None"
  "id' (example_stream mn mx window) = 7"
  "options (example_stream mn mx window) = example_options mn mx"
  "closed (example_stream mn mx window) = False"
  "error_text (example_stream mn mx window) = []"
  by (simp_all add: example_stream_def Stream_ctor_def)

lemma Create_example_10:
  "Create example_flags (example_options 0 10) None False example_env
     = Inr (Some (example_stream 0 10 10))"
  by (simp add: Create_def example_flags_def example_options_def example_env_def
      example_stream_def Stream_ctor_def Let_def)

lemma Create_example_0:
  "Create example_flags (example_options 0 0) None False example_env
     = Inr (Some (example_stream 0 0 0))"
  by (simp add: Create_def example_flags_def example_options_def example_env_def
      example_stream_def Stream_ctor_def Let_def)

section \<open>Admission (\<open>AppendIfNotFull\<close>)\<close>

lemma AppendIfNotFull_admitted:
  assumes "AppendIfNotFull fl data w s = Inr (r, s')" "r \<noteq> 1" "0 < cur_buf_size s"
  shows "produced s < remote_consumed s + cur_buf_size s"
    and "remote_consumed s' = remote_consumed s" and "cur_buf_size s' = cur_buf_size s"
    and "produced s' = (if r = 0 then produced s + of_nat (length data) else produced s)"
    and "options s' = options s"
  using assms
  by (auto simp: AppendIfNotFull_def AppendIfNotFull_admit_def Let_def
      split: if_splits option.splits)

lemma AppendIfNotFull_window:
  "AppendIfNotFull fl data w s = Inr (r, s') \<Longrightarrow>
     cur_buf_size s' = cur_buf_size s \<and> options s' = options s"
  by (auto simp: AppendIfNotFull_def AppendIfNotFull_admit_def Let_def
      split: if_splits option.splits)

lemma unat_plus_length_le:
  "unat ((x :: 64 word) + of_nat n) \<le> unat x + n"
proof -
  have "unat (x + of_nat n) \<le> unat x + unat (of_nat n :: 64 word)"
    by (simp add: unat_word_ariths)
  moreover have "unat (of_nat n :: 64 word) \<le> n"
    by (simp add: unat_of_nat)
  ultimately show ?thesis by linarith
qed

text \<open>
  C1, as the claim states it: after an admitted write,
  \<open>produced - remote_consumed \<le> cur_buf_size\<close>. This fails on the code. A stream is
  created with \<open>max_buf_size = 10\<close>, so its window is 10 bytes; the first write, of 12
  bytes, finds the window not full and is admitted whole (return value 0); afterwards
  \<open>produced = 12\<close>, \<open>remote_consumed = 0\<close>, \<open>cur_buf_size = 10\<close>.
\<close>

theorem C1_counterexample:
  "Create example_flags (example_options 0 10) None False example_env
     = Inr (Some (example_stream 0 10 10))
   \<and> run example_flags [Write ''0123456789ab'' 0] (example_stream 0 10 10)
     = Inr ((example_stream 0 10 10)\<lparr> produced := 12 \<rparr>)
   \<and> step example_flags (Write ''0123456789ab'' 0) (example_stream 0 10 10)
     = Inr (0, (example_stream 0 10 10)\<lparr> produced := 12 \<rparr>)
   \<and> \<not> (produced ((example_stream 0 10 10)\<lparr> produced := 12 \<rparr>)
          - remote_consumed ((example_stream 0 10 10)\<lparr> produced := 12 \<rparr>)
          \<le> cur_buf_size ((example_stream 0 10 10)\<lparr> produced := 12 \<rparr>))"
proof -
  have "step example_flags (Write ''0123456789ab'' 0) (example_stream 0 10 10)
     = Inr (0, (example_stream 0 10 10)\<lparr> produced := 12 \<rparr>)"
    by (simp add: AppendIfNotFull_def AppendIfNotFull_admit_def example_flags_def
        example_stream_def Stream_ctor_def)
  moreover have "\<not> (produced ((example_stream 0 10 10)\<lparr> produced := 12 \<rparr>)
          - remote_consumed ((example_stream 0 10 10)\<lparr> produced := 12 \<rparr>)
          \<le> cur_buf_size ((example_stream 0 10 10)\<lparr> produced := 12 \<rparr>))"
    by (simp add: example_stream_def Stream_ctor_def)
  ultimately show ?thesis
    using Create_example_10 by simp
qed

text \<open>
  C1, amended: after any run of writes and feedback that reaches a stream with
  \<open>cur_buf_size > 0\<close>, a write that is admitted (return value 0, or -1 on the
  transport-failure path) found the window not full when it was checked:
  \<open>produced < remote_consumed + cur_buf_size\<close> held before the call; the call changes
  neither \<open>remote_consumed\<close> nor \<open>cur_buf_size\<close>; \<open>produced\<close> grows by the payload length
  when the write succeeded and is back at its old value when the transport write
  failed. So, when \<open>remote_consumed + cur_buf_size\<close> does not wrap around, afterwards
  \<open>produced < remote_consumed + cur_buf_size + payload length\<close> after a successful write
  and \<open>produced < remote_consumed + cur_buf_size\<close> after a failed one: an admitted
  payload may overshoot the window by less than its own length.
\<close>

theorem C1_admission_bound:
  assumes "run fl ops s0 = Inr s" and "0 < cur_buf_size s"
    and "step fl (Write data w) s = Inr (r, s')" and "r \<noteq> 1"
  shows "produced s < remote_consumed s + cur_buf_size s
       \<and> remote_consumed s' = remote_consumed s \<and> cur_buf_size s' = cur_buf_size s
       \<and> produced s' = (if r = 0 then produced s + of_nat (length data) else produced s)
       \<and> (unat (remote_consumed s) + unat (cur_buf_size s) < 2 ^ 64 \<longrightarrow>
            unat (produced s')
              < unat (remote_consumed s') + unat (cur_buf_size s')
                  + (if r = 0 then length data else 0))"
proof -
  from assms(3) have a: "AppendIfNotFull fl data w s = Inr (r, s')" by simp
  note f = AppendIfNotFull_admitted [OF a assms(4) assms(2)]
  have "unat (produced s')
          < unat (remote_consumed s) + unat (cur_buf_size s) + (if r = 0 then length data else 0)"
    if nw: "unat (remote_consumed s) + unat (cur_buf_size s) < 2 ^ 64"
  proof -
    from nw have "unat (remote_consumed s + cur_buf_size s)
                    = unat (remote_consumed s) + unat (cur_buf_size s)"
      by (simp add: unat_word_ariths)
    with f(1) have lt: "unat (produced s) < unat (remote_consumed s) + unat (cur_buf_size s)"
      by (simp add: word_less_nat_alt)
    show ?thesis
    proof (cases "r = 0")
      case True
      with lt f(4) unat_plus_length_le [of "produced s" "length data"] show ?thesis by simp
    next
      case False
      with lt f(4) show ?thesis by simp
    qed
  qed
  with f show ?thesis by simp
qed

theorem C1_admission_bound_witness:
  "run example_flags [Write ''0123456789ab'' 0, Feedback 6] (example_stream 0 10 10)
     = Inr ((example_stream 0 10 10)\<lparr> produced := 12, remote_consumed := 6 \<rparr>)
   \<and> step example_flags (Write ''xyz'' 0)
        ((example_stream 0 10 10)\<lparr> produced := 12, remote_consumed := 6 \<rparr>)
     = Inr (0, (example_stream 0 10 10)\<lparr> produced := 15, remote_consumed := 6 \<rparr>)
   \<and> produced ((example_stream 0 10 10)\<lparr> produced := 12, remote_consumed := 6 \<rparr>)
       < remote_consumed ((example_stream 0 10 10)\<lparr> produced := 12, remote_consumed := 6 \<rparr>)
         + cur_buf_size ((example_stream 0 10 10)\<lparr> produced := 12, remote_consumed := 6 \<rparr>)
   \<and> unat (produced ((example_stream 0 10 10)\<lparr> produced := 15, remote_consumed := 6 \<rparr>))
       < unat (remote_consumed ((example_stream 0 10 10)\<lparr> produced := 15, remote_consumed := 6 \<rparr>))
         + unat (cur_buf_size ((example_stream 0 10 10)\<lparr> produced := 15, remote_consumed := 6 \<rparr>))
         + length ''xyz''"
proof -
  let ?s = "(example_stream 0 10 10)\<lparr> produced := 12, remote_consumed := 6 \<rparr>"
  let ?s' = "(example_stream 0 10 10)\<lparr> produced := 15, remote_consumed := 6 \<rparr>"
  have p1: "run example_flags [Write ''0123456789ab'' 0, Feedback 6] (example_stream 0 10 10)
              = Inr ?s"
    by (simp add: AppendIfNotFull_def AppendIfNotFull_admit_def SetRemoteConsumed_def CHECK_def
        example_flags_def example_stream_def Stream_ctor_def)
  have p2: "0 < cur_buf_size ?s"
    by (simp add: example_stream_fields)
  have p3: "step example_flags (Write ''xyz'' 0) ?s = Inr (0, ?s')"
    by (simp add: AppendIfNotFull_def AppendIfNotFull_admit_def example_flags_def
        example_stream_def Stream_ctor_def)
  have p4: "(0::int) \<noteq> 1" by simp
  have nw: "unat (remote_consumed ?s) + unat (cur_buf_size ?s) < 2 ^ 64"
    by (simp add: example_stream_fields)
  from C1_admission_bound [OF p1 p2 p3 p4] nw p1 p3 show ?thesis by simp
qed

text \<open>
  C2: the admission step of a write. If \<open>cur_buf_size = 0\<close> the payload is admitted and
  the step leaves the stream as it is (a successful write then returns 0 with every
  flow-control counter of the stream, \<open>produced\<close>, \<open>remote_consumed\<close>, \<open>cur_buf_size\<close> and
  \<open>local_consumed\<close>, unchanged). Otherwise, if \<open>produced \<ge> remote_consumed + cur_buf_size\<close>
  at the check, the call returns 1 (Full) with the stream unchanged whatever the
  transport would have answered, and \<open>StreamWrite\<close> returns \<open>EAGAIN\<close>. Otherwise the step
  adds exactly the payload length to \<open>produced\<close> and admits the payload. The call returns
  1 exactly when the step did not admit.
\<close>

theorem C2_admission:
  "(cur_buf_size s = 0 \<longrightarrow>
      AppendIfNotFull_admit data s = Some s
      \<and> (\<forall>r s'. AppendIfNotFull fl data 0 s = Inr (r, s') \<longrightarrow>
            r = 0 \<and> produced s' = produced s \<and> remote_consumed s' = remote_consumed s
            \<and> cur_buf_size s' = cur_buf_size s \<and> local_consumed s' = local_consumed s))
   \<and> (cur_buf_size s \<noteq> 0 \<and> remote_consumed s + cur_buf_size s \<le> produced s \<longrightarrow>
      AppendIfNotFull_admit data s = None
      \<and> AppendIfNotFull fl data w s = Inr (1, s)
      \<and> (Address reg i = Some s \<longrightarrow> StreamWrite fl reg i data w e = Inr (EAGAIN, reg)))
   \<and> (cur_buf_size s \<noteq> 0 \<and> produced s < remote_consumed s + cur_buf_size s \<longrightarrow>
      AppendIfNotFull_admit data s = Some (s\<lparr> produced := produced s + of_nat (length data) \<rparr>)
      \<and> (\<forall>r s'. AppendIfNotFull fl data 0 s = Inr (r, s') \<longrightarrow>
            r = 0 \<and> produced s' = produced s + of_nat (length data)
            \<and> remote_consumed s' = remote_consumed s
            \<and> cur_buf_size s' = cur_buf_size s \<and> local_consumed s' = local_consumed s))
   \<and> (\<forall>r s'. AppendIfNotFull fl data w s = Inr (r, s') \<longrightarrow>
         (r = 1) = (AppendIfNotFull_admit data s = None))"
proof -
  have reg: "reg(i \<mapsto> s) = reg" if "Address reg i = Some s"
    using that by (auto simp: Address_def fun_eq_iff split: option.splits if_splits)
  have a: "cur_buf_size s = 0 \<longrightarrow>
      AppendIfNotFull_admit data s = Some s
      \<and> (\<forall>r s'. AppendIfNotFull fl data 0 s = Inr (r, s') \<longrightarrow>
            r = 0 \<and> produced s' = produced s \<and> remote_consumed s' = remote_consumed s
            \<and> cur_buf_size s' = cur_buf_size s \<and> local_consumed s' = local_consumed s)"
    by (auto simp: AppendIfNotFull_def AppendIfNotFull_admit_def Let_def
        split: if_splits option.splits)
  have b: "cur_buf_size s \<noteq> 0 \<and> remote_consumed s + cur_buf_size s \<le> produced s \<longrightarrow>
      AppendIfNotFull_admit data s = None
      \<and> AppendIfNotFull fl data w s = Inr (1, s)
      \<and> (Address reg i = Some s \<longrightarrow> StreamWrite fl reg i data w e = Inr (EAGAIN, reg))"
    by (auto simp: AppendIfNotFull_def AppendIfNotFull_admit_def StreamWrite_def reg
        word_greater_zero_iff)
  have c: "cur_buf_size s \<noteq> 0 \<and> produced s < remote_consumed s + cur_buf_size s \<longrightarrow>
      AppendIfNotFull_admit data s = Some (s\<lparr> produced := produced s + of_nat (length data) \<rparr>)
      \<and> (\<forall>r s'. AppendIfNotFull fl data 0 s = Inr (r, s') \<longrightarrow>
            r = 0 \<and> produced s' = produced s + of_nat (length data)
            \<and> remote_consumed s' = remote_consumed s
            \<and> cur_buf_size s' = cur_buf_size s \<and> local_consumed s' = local_consumed s)"
    by (auto simp: AppendIfNotFull_def AppendIfNotFull_admit_def Let_def word_greater_zero_iff
        split: if_splits option.splits)
  have d: "\<forall>r s'. AppendIfNotFull fl data w s = Inr (r, s') \<longrightarrow>
         (r = 1) = (AppendIfNotFull_admit data s = None)"
    by (auto simp: AppendIfNotFull_def Let_def split: if_splits option.splits)
  show ?thesis by (intro conjI a b c d)
qed


theorem C2_admission_witness:
  "AppendIfNotFull_admit ''abc'' (example_stream 0 0 0) = Some (example_stream 0 0 0)
   \<and> AppendIfNotFull example_flags ''abc'' 0 (example_stream 0 0 0)
       = Inr (0, example_stream 0 0 0)
   \<and> AppendIfNotFull example_flags ''x'' 0 ((example_stream 0 10 10)\<lparr> produced := 12 \<rparr>)
       = Inr (1, (example_stream 0 10 10)\<lparr> produced := 12 \<rparr>)
   \<and> StreamWrite example_flags [7 \<mapsto> (example_stream 0 10 10)\<lparr> produced := 12 \<rparr>] 7 ''x'' 0 0
       = Inr (EAGAIN, [7 \<mapsto> (example_stream 0 10 10)\<lparr> produced := 12 \<rparr>])
   \<and> AppendIfNotFull_admit ''abc'' (example_stream 0 10 10)
       = Some ((example_stream 0 10 10)\<lparr> produced := 3 \<rparr>)
   \<and> AppendIfNotFull example_flags ''abc'' 0 (example_stream 0 10 10)
       = Inr (0, (example_stream 0 10 10)\<lparr> produced := 3 \<rparr>)
   \<and> produced ((example_stream 0 10 10)\<lparr> produced := 3 \<rparr>)
       = produced (example_stream 0 10 10) + of_nat (length ''abc'')"
proof -
  let ?full = "(example_stream 0 10 10)\<lparr> produced := 12 \<rparr>"
  let ?s3 = "(example_stream 0 10 10)\<lparr> produced := 3 \<rparr>"
  have z: "cur_buf_size (example_stream 0 0 0) = 0"
    by (simp add: example_stream_fields)
  have z0: "AppendIfNotFull example_flags ''abc'' 0 (example_stream 0 0 0)
              = Inr (0, example_stream 0 0 0)"
    by (simp add: AppendIfNotFull_def AppendIfNotFull_admit_def example_flags_def
        example_stream_def Stream_ctor_def)
  have f: "cur_buf_size ?full \<noteq> 0 \<and> remote_consumed ?full + cur_buf_size ?full \<le> produced ?full"
    by (simp add: example_stream_def Stream_ctor_def)
  have a: "Address [7 \<mapsto> ?full] 7 = Some ?full"
    by (simp add: Address_def example_stream_def Stream_ctor_def)
  have n: "cur_buf_size (example_stream 0 10 10) \<noteq> 0
         \<and> produced (example_stream 0 10 10)
             < remote_consumed (example_stream 0 10 10) + cur_buf_size (example_stream 0 10 10)"
    by (simp add: example_stream_fields)
  have n0: "AppendIfNotFull example_flags ''abc'' 0 (example_stream 0 10 10) = Inr (0, ?s3)"
    by (simp add: AppendIfNotFull_def AppendIfNotFull_admit_def example_flags_def
        example_stream_def Stream_ctor_def)
  note t0 = C2_admission [of "example_stream 0 0 0" "''abc''" example_flags 0 Map.empty 7 0]
  note t1 = C2_admission [of ?full "''x''" example_flags 0 "[7 \<mapsto> ?full]" 7 0]
  note t2 = C2_admission [of "example_stream 0 10 10" "''abc''" example_flags 0 Map.empty 7 0]
  from t0 z have "AppendIfNotFull_admit ''abc'' (example_stream 0 0 0) = Some (example_stream 0 0 0)"
    by blast
  moreover from t1 f a have "AppendIfNotFull example_flags ''x'' 0 ?full = Inr (1, ?full)
      \<and> StreamWrite example_flags [7 \<mapsto> ?full] 7 ''x'' 0 0 = Inr (EAGAIN, [7 \<mapsto> ?full])"
    by blast
  moreover from t2 n have "AppendIfNotFull_admit ''abc'' (example_stream 0 10 10) = Some ?s3"
    by (simp add: example_stream_fields)
  moreover from t2 n n0
  have "produced ?s3 = produced (example_stream 0 10 10) + of_nat (length ''abc'')"
    by blast
  ultimately show ?thesis using z0 n0 by simp
qed

text \<open>
  C3: a write whose transport write fails must end with \<open>produced\<close> at its value before
  the call. With \<open>cur_buf_size > 0\<close> this is what the code does (\<open>AppendIfNotFull_admitted\<close>,
  the case of a return value other than 0). With \<open>cur_buf_size = 0\<close> it is not: nothing was added at
  admission, but the failure path still subtracts the payload length. A stream created
  with \<open>max_buf_size = 0\<close> has \<open>cur_buf_size = 0\<close> and \<open>produced = 0\<close>; a one-byte write
  whose transport write fails returns -1 and leaves \<open>produced = 2^64 - 1\<close>.
\<close>

theorem C3_failed_write_without_flow_control:
  "Create example_flags (example_options 0 0) None False example_env
     = Inr (Some (example_stream 0 0 0))
   \<and> cur_buf_size (example_stream 0 0 0) = 0
   \<and> produced (example_stream 0 0 0) = 0
   \<and> AppendIfNotFull example_flags ''x'' (- 1) (example_stream 0 0 0)
       = Inr (- 1, (example_stream 0 0 0)\<lparr> produced := 18446744073709551615 \<rparr>)"
proof -
  have "AppendIfNotFull example_flags ''x'' (- 1) (example_stream 0 0 0)
       = Inr (- 1, (example_stream 0 0 0)\<lparr> produced := 18446744073709551615 \<rparr>)"
    by (simp add: AppendIfNotFull_def AppendIfNotFull_admit_def example_stream_def Stream_ctor_def)
  with Create_example_0 show ?thesis by (simp add: example_stream_fields)
qed

section \<open>Feedback (\<open>SetRemoteConsumed\<close>)\<close>

lemma uint_scast_nonneg:
  assumes "0 \<le> sint (m :: 32 word)"
  shows "uint (scast m :: 64 word) = sint m"
proof -
  have "sint (scast m :: 64 word) = sint m"
    by (rule sint_up_scast) (simp add: is_up)
  then have "uint (scast m :: 64 word) = take_bit 64 (sint m)"
    by (simp add: uint_sint)
  moreover have "sint m < 2 ^ 64"
    using sint_lt [of m] by simp
  ultimately show ?thesis
    using assms by (simp add: take_bit_int_eq_self)
qed

lemma sint_int_bound: "sint (m :: 32 word) < 2 ^ 31"
  using sint_lt [of m] by simp

lemma less_scast_iff:
  assumes "0 \<le> sint (m :: 32 word)"
  shows "(c < (scast m :: 64 word)) = (uint c < sint m)"
  by (simp add: word_less_def uint_scast_nonneg [OF assms])

lemma scast_less_double_iff:
  assumes "0 \<le> sint (m :: 32 word)" and "uint (c :: 64 word) < sint m"
  shows "((scast m :: 64 word) < c * 2) = (sint m < 2 * uint c)"
proof -
  have "uint c < 2 ^ 31" using assms(2) sint_int_bound [of m] by linarith
  then have "uint (c * 2) = 2 * uint c"
    by (simp add: uint_word_ariths take_bit_int_eq_self mult.commute)
  then show ?thesis
    by (simp add: word_less_def uint_scast_nonneg [OF assms(1)])
qed

lemma uint_double:
  assumes "uint (c :: 64 word) < 2 ^ 31"
  shows "uint (c * 2) = 2 * uint c"
  using assms by (simp add: uint_word_ariths take_bit_int_eq_self mult.commute)

lemma uint_half: "uint ((c :: 64 word) div 2) = uint c div 2"
  by (simp add: uint_div)

lemma SetRemoteConsumed_effective:
  assumes "remote_consumed s < v" and "SetRemoteConsumed fl v s = Inr (s', woken)"
  shows "remote_consumed s' = v" and "produced s' = produced s" and "options s' = options s"
    and "local_consumed s' = local_consumed s"
    and "0 < sint (socket_max_streams_unconsumed_bytes fl) \<Longrightarrow>
           \<exists>h. host_socket s = Some h
             \<and> host_socket s' = Some (h\<lparr> total_streams_unconsumed_size :=
                   total_streams_unconsumed_size h - (v - remote_consumed s) \<rparr>)
             \<and> cur_buf_size s' = adapt_cur_buf_size fl
                   (total_streams_unconsumed_size h - (v - remote_consumed s)) v s"
    and "\<not> 0 < sint (socket_max_streams_unconsumed_bytes fl) \<Longrightarrow>
           cur_buf_size s' = cur_buf_size s \<and> host_socket s' = host_socket s"
  using assms
  by (auto simp: SetRemoteConsumed_def CHECK_def Let_def split: if_splits option.splits)

lemma adapt_cur_buf_size_uint:
  "if sint (socket_max_streams_unconsumed_bytes fl) < sint t
   then (if 0 < sint (min_buf_size (options s))
         then uint (adapt_cur_buf_size fl t v s) = sint (min_buf_size (options s))
         else uint (adapt_cur_buf_size fl t v s) = uint (cur_buf_size s) div 2)
   else if v + cur_buf_size s \<le> produced s
           \<and> (sint (max_buf_size (options s)) \<le> 0
                \<or> uint (cur_buf_size s) < sint (max_buf_size (options s)))
   then (if 0 < sint (max_buf_size (options s))
         then uint (adapt_cur_buf_size fl t v s)
                = min (2 * uint (cur_buf_size s)) (sint (max_buf_size (options s)))
         else adapt_cur_buf_size fl t v s = cur_buf_size s * 2)
   else adapt_cur_buf_size fl t v s = cur_buf_size s"
proof -
  let ?mn = "min_buf_size (options s)" and ?mx = "max_buf_size (options s)"
  let ?c = "cur_buf_size s"
  have lt: "(?c < scast ?mx) = (uint ?c < sint ?mx)" if "0 < sint ?mx"
    using that by (simp add: less_scast_iff)
  have grow: "uint (if 0 < sint ?mx \<and> scast ?mx < ?c * 2 then scast ?mx else ?c * 2)
                = min (2 * uint ?c) (sint ?mx)"
    if p: "0 < sint ?mx" and q: "uint ?c < sint ?mx"
  proof -
    from p have p0: "0 \<le> sint ?mx" by simp
    from q sint_int_bound [of ?mx] have "uint ?c < 2 ^ 31" by linarith
    then have d: "uint (?c * 2) = 2 * uint ?c" by (rule uint_double)
    show ?thesis
      using p d by (simp add: scast_less_double_iff [OF p0 q] uint_scast_nonneg [OF p0])
  qed
  show ?thesis
  proof (cases "sint (socket_max_streams_unconsumed_bytes fl) < sint t")
    case True
    then show ?thesis by (simp add: adapt_cur_buf_size_def uint_scast_nonneg uint_half)
  next
    case nocrowd: False
    show ?thesis
    proof (cases "0 < sint ?mx")
      case True
      with nocrowd lt grow show ?thesis by (auto simp: adapt_cur_buf_size_def)
    next
      case False
      with nocrowd show ?thesis by (auto simp: adapt_cur_buf_size_def)
    qed
  qed
qed

lemma SetRemoteConsumed_result:
  assumes "SetRemoteConsumed fl v s = Inr (s', woken)"
  shows "remote_consumed s' = max v (remote_consumed s)"
  using assms
  by (auto simp: SetRemoteConsumed_def CHECK_def Let_def split: if_splits option.splits sum.splits)

lemma feedbacks_sorted:
  "feedbacks fl vs s = Inr ss \<Longrightarrow> sorted (map remote_consumed (s # ss))"
proof (induction vs arbitrary: s ss)
  case Nil
  then show ?case by simp
next
  case (Cons v vs)
  from Cons.prems obtain s1 woken ss1 where
    h: "SetRemoteConsumed fl v s = Inr (s1, woken)" and t: "feedbacks fl vs s1 = Inr ss1"
    and e: "ss = s1 # ss1"
    by (auto split: sum.splits)
  from Cons.IH [OF t] have srt: "sorted (map remote_consumed (s1 # ss1))" .
  from SetRemoteConsumed_result [OF h] have "remote_consumed s \<le> remote_consumed s1" by simp
  with srt e show ?case by auto
qed

lemma SetRemoteConsumed_no_fault:
  "\<not> crash_on_fatal_log fl \<Longrightarrow>
   host_socket s \<noteq> None \<or> sint (socket_max_streams_unconsumed_bytes fl) \<le> 0 \<Longrightarrow>
   \<exists>s' woken. SetRemoteConsumed fl v s = Inr (s', woken)
      \<and> (host_socket s' = None) = (host_socket s = None)"
  by (auto simp: SetRemoteConsumed_def CHECK_def Let_def split: if_splits option.splits)

lemma feedbacks_no_fault:
  "\<not> crash_on_fatal_log fl \<Longrightarrow>
   host_socket s \<noteq> None \<or> sint (socket_max_streams_unconsumed_bytes fl) \<le> 0 \<Longrightarrow>
   \<exists>ss. feedbacks fl vs s = Inr ss"
proof (induction vs arbitrary: s)
  case Nil
  then show ?case by simp
next
  case (Cons v vs)
  from SetRemoteConsumed_no_fault [OF Cons.prems, of v] obtain s' :: Stream and woken where
    h: "SetRemoteConsumed fl v s = Inr (s', woken)"
    and hs: "(host_socket s' = None) = (host_socket s = None)"
    by auto
  from Cons.prems(2) hs
  have "host_socket s' \<noteq> None \<or> sint (socket_max_streams_unconsumed_bytes fl) \<le> 0"
    by auto
  from Cons.IH [OF Cons.prems(1) this] obtain ss where "feedbacks fl vs s' = Inr ss" by auto
  with h show ?case by simp
qed

text \<open>
  C4: over any sequence of \<open>SetRemoteConsumed\<close> calls the values of \<open>remote_consumed\<close>
  (before the first call and after each call) are non-decreasing, and the sequence runs
  to its end when FATAL logs do not abort and the host socket is bound or the aggregate
  limit is off. A call with \<open>new_value \<le> remote_consumed\<close> returns the stream exactly as
  it was and detaches no waiter (on a stream with a window, or when a failed \<open>CHECK\<close> only
  logs), so a replayed FEEDBACK frame handed to \<open>OnReceived\<close> changes nothing.
\<close>

theorem C4_monotone_feedback:
  "(feedbacks fl vs s = Inr ss \<longrightarrow> sorted (map remote_consumed (s # ss)))
   \<and> (\<not> crash_on_fatal_log fl
        \<and> (host_socket s \<noteq> None \<or> sint (socket_max_streams_unconsumed_bytes fl) \<le> 0)
        \<longrightarrow> (\<exists>ss. feedbacks fl vs s = Inr ss))
   \<and> (v \<le> remote_consumed s \<and> (0 < cur_buf_size s \<or> \<not> crash_on_fatal_log fl) \<longrightarrow>
        SetRemoteConsumed fl v s = Inr (s, []))
   \<and> (frame_type fm = FRAME_TYPE_FEEDBACK \<and> feedback_consumed_size fm \<le> remote_consumed s
        \<and> host_socket s \<noteq> None \<and> 0 < cur_buf_size s \<longrightarrow>
        OnReceived fl env fm [] sock s = Inr (0, s, [], []))"
proof -
  have a: "v \<le> remote_consumed s \<and> (0 < cur_buf_size s \<or> \<not> crash_on_fatal_log fl) \<longrightarrow>
        SetRemoteConsumed fl v s = Inr (s, [])"
    by (auto simp: SetRemoteConsumed_def CHECK_def)
  have b: "frame_type fm = FRAME_TYPE_FEEDBACK \<and> feedback_consumed_size fm \<le> remote_consumed s
        \<and> host_socket s \<noteq> None \<and> 0 < cur_buf_size s \<longrightarrow>
        OnReceived fl env fm [] sock s = Inr (0, s, [], [])"
    by (auto simp: OnReceived_def SetRemoteConsumed_def CHECK_def)
  have c: "feedbacks fl vs s = Inr ss \<longrightarrow> sorted (map remote_consumed (s # ss))"
    using feedbacks_sorted by (rule impI)
  have d: "\<not> crash_on_fatal_log fl
        \<and> (host_socket s \<noteq> None \<or> sint (socket_max_streams_unconsumed_bytes fl) \<le> 0)
        \<longrightarrow> (\<exists>ss. feedbacks fl vs s = Inr ss)"
    using feedbacks_no_fault [of fl s vs] by (intro impI) (elim conjE)
  show ?thesis by (intro conjI c d a b)
qed

theorem C4_monotone_feedback_witness:
  "feedbacks example_flags [6, 3, 8] (example_stream 0 10 10)
     = Inr [(example_stream 0 10 10)\<lparr> remote_consumed := 6 \<rparr>,
            (example_stream 0 10 10)\<lparr> remote_consumed := 6 \<rparr>,
            (example_stream 0 10 10)\<lparr> remote_consumed := 8 \<rparr>]
   \<and> sorted [0, 6, 6, 8 :: size_t]
   \<and> SetRemoteConsumed example_flags 3 ((example_stream 0 10 10)\<lparr> remote_consumed := 6 \<rparr>)
       = Inr ((example_stream 0 10 10)\<lparr> remote_consumed := 6 \<rparr>, [])
   \<and> OnReceived example_flags \<lparr> add_stream_rc = 0, start_urgent_rc = 0 \<rparr>
        \<lparr> fm_stream_id = 7, fm_source_stream_id = 9, frame_type = FRAME_TYPE_FEEDBACK,
          has_continuation = False, feedback_consumed_size = 3 \<rparr> [] example_socket
        ((example_stream 0 10 10)\<lparr> remote_consumed := 6, host_socket := Some example_socket \<rparr>)
       = Inr (0, (example_stream 0 10 10)\<lparr> remote_consumed := 6,
                   host_socket := Some example_socket \<rparr>, [], [])"
proof -
  let ?s6 = "(example_stream 0 10 10)\<lparr> remote_consumed := 6 \<rparr>"
  let ?s8 = "(example_stream 0 10 10)\<lparr> remote_consumed := 8 \<rparr>"
  let ?b6 = "(example_stream 0 10 10)\<lparr> remote_consumed := 6, host_socket := Some example_socket \<rparr>"
  let ?fm = "\<lparr> fm_stream_id = 7, fm_source_stream_id = 9, frame_type = FRAME_TYPE_FEEDBACK,
          has_continuation = False, feedback_consumed_size = 3 \<rparr>"
  have run: "feedbacks example_flags [6, 3, 8] (example_stream 0 10 10) = Inr [?s6, ?s6, ?s8]"
    by (simp add: SetRemoteConsumed_def CHECK_def example_flags_def example_stream_def
        Stream_ctor_def)
  have nf: "\<not> crash_on_fatal_log example_flags
      \<and> (host_socket (example_stream 0 10 10) \<noteq> None
           \<or> sint (socket_max_streams_unconsumed_bytes example_flags) \<le> 0)"
    by (simp add: example_flags_def)
  have old: "3 \<le> remote_consumed ?s6 \<and> (0 < cur_buf_size ?s6 \<or> \<not> crash_on_fatal_log example_flags)"
    by (simp add: example_stream_def Stream_ctor_def)
  have rep: "frame_type ?fm = FRAME_TYPE_FEEDBACK \<and> feedback_consumed_size ?fm \<le> remote_consumed ?b6
        \<and> host_socket ?b6 \<noteq> None \<and> 0 < cur_buf_size ?b6"
    by (simp add: example_stream_def Stream_ctor_def)
  note t = C4_monotone_feedback [of example_flags "[6, 3, 8]" "example_stream 0 10 10"
      "[?s6, ?s6, ?s8]"]
  from t run have "sorted (map remote_consumed [example_stream 0 10 10, ?s6, ?s6, ?s8])"
    by blast
  then have "sorted [0, 6, 6, 8 :: size_t]"
    by (simp add: example_stream_def Stream_ctor_def)
  moreover from t nf have "\<exists>ss. feedbacks example_flags [6, 3, 8] (example_stream 0 10 10) = Inr ss"
    by blast
  moreover from C4_monotone_feedback [of example_flags "[]" ?s6 "[]" 3] old
  have "SetRemoteConsumed example_flags 3 ?s6 = Inr (?s6, [])"
    by blast
  moreover from C4_monotone_feedback [of example_flags "[]" ?b6 "[]" 0 ?fm
      "\<lparr> add_stream_rc = 0, start_urgent_rc = 0 \<rparr>" example_socket] rep
  have "OnReceived example_flags \<lparr> add_stream_rc = 0, start_urgent_rc = 0 \<rparr> ?fm [] example_socket ?b6
          = Inr (0, ?b6, [], [])"
    by blast
  ultimately show ?thesis using run by simp
qed

text \<open>
  C5: an effective \<open>SetRemoteConsumed\<close> call (\<open>new_value > remote_consumed\<close>). With
  \<open>socket_max_streams_unconsumed_bytes > 0\<close> the aggregate counter of the host socket is
  lowered by \<open>new_value - remote_consumed\<close>; if it then exceeds the limit, the window
  becomes \<open>min_buf_size\<close> when that is positive and half the old window otherwise; if it
  does not, and \<open>produced \<ge> new_value + cur_buf_size\<close> still holds and the window is below
  \<open>max_buf_size\<close> (or there is no maximum, \<open>max_buf_size \<le> 0\<close>), the window becomes the
  smaller of twice the old window and \<open>max_buf_size\<close> (twice the old window when there is
  no maximum); in every other case the window is unchanged. With the tunable at 0 (or
  below) neither the window nor the host socket changes. Window sizes are read as
  unsigned integers (\<open>uint\<close>), so "twice" and "half" are the arithmetic ones.
\<close>

theorem C5_adaptive_window:
  assumes "remote_consumed s < v" and "SetRemoteConsumed fl v s = Inr (s', woken)"
  shows "if 0 < sint (socket_max_streams_unconsumed_bytes fl) then
           (\<exists>h. host_socket s = Some h
              \<and> host_socket s' = Some (h\<lparr> total_streams_unconsumed_size :=
                    total_streams_unconsumed_size h - (v - remote_consumed s) \<rparr>)
              \<and> (if sint (socket_max_streams_unconsumed_bytes fl)
                       < sint (total_streams_unconsumed_size h - (v - remote_consumed s))
                  then (if 0 < sint (min_buf_size (options s))
                        then uint (cur_buf_size s') = sint (min_buf_size (options s))
                        else uint (cur_buf_size s') = uint (cur_buf_size s) div 2)
                  else if v + cur_buf_size s \<le> produced s
                          \<and> (sint (max_buf_size (options s)) \<le> 0
                               \<or> uint (cur_buf_size s) < sint (max_buf_size (options s)))
                  then (if 0 < sint (max_buf_size (options s))
                        then uint (cur_buf_size s')
                               = min (2 * uint (cur_buf_size s)) (sint (max_buf_size (options s)))
                        else cur_buf_size s' = cur_buf_size s * 2)
                  else cur_buf_size s' = cur_buf_size s))
         else cur_buf_size s' = cur_buf_size s \<and> host_socket s' = host_socket s"
proof (cases "0 < sint (socket_max_streams_unconsumed_bytes fl)")
  case False
  with SetRemoteConsumed_effective(6) [OF assms] show ?thesis by simp
next
  case True
  from SetRemoteConsumed_effective(5) [OF assms True] obtain h :: Socket where
    h: "host_socket s = Some h"
       "host_socket s' = Some (h\<lparr> total_streams_unconsumed_size :=
                   total_streams_unconsumed_size h - (v - remote_consumed s) \<rparr>)"
    and c: "cur_buf_size s' = adapt_cur_buf_size fl
              (total_streams_unconsumed_size h - (v - remote_consumed s)) v s"
    by blast
  from adapt_cur_buf_size_uint
         [of fl "total_streams_unconsumed_size h - (v - remote_consumed s)" s v]
  have "if sint (socket_max_streams_unconsumed_bytes fl)
                       < sint (total_streams_unconsumed_size h - (v - remote_consumed s))
                  then (if 0 < sint (min_buf_size (options s))
                        then uint (cur_buf_size s') = sint (min_buf_size (options s))
                        else uint (cur_buf_size s') = uint (cur_buf_size s) div 2)
                  else if v + cur_buf_size s \<le> produced s
                          \<and> (sint (max_buf_size (options s)) \<le> 0
                               \<or> uint (cur_buf_size s) < sint (max_buf_size (options s)))
                  then (if 0 < sint (max_buf_size (options s))
                        then uint (cur_buf_size s')
                               = min (2 * uint (cur_buf_size s)) (sint (max_buf_size (options s)))
                        else cur_buf_size s' = cur_buf_size s * 2)
                  else cur_buf_size s' = cur_buf_size s"
    by (simp only: c)
  with True h show ?thesis by simp
qed

theorem C5_adaptive_window_witness:
  "remote_consumed crowded_stream < 10
   \<and> SetRemoteConsumed pressure_flags 10 crowded_stream
       = Inr (crowded_stream\<lparr> host_socket :=
                  Some \<lparr> total_streams_unconsumed_size = 190, writes = [] \<rparr>,
                cur_buf_size := 10, remote_consumed := 10, writable_wait_list := [] \<rparr>, [])
   \<and> uint (10 :: size_t) = sint (min_buf_size (options crowded_stream))
   \<and> remote_consumed saturated_stream < 5
   \<and> SetRemoteConsumed pressure_flags 5 saturated_stream
       = Inr (saturated_stream\<lparr> host_socket :=
                  Some \<lparr> total_streams_unconsumed_size = 95, writes = [] \<rparr>,
                cur_buf_size := 20, remote_consumed := 5 \<rparr>, [])
   \<and> uint (20 :: size_t)
       = min (2 * uint (cur_buf_size saturated_stream))
             (sint (max_buf_size (options saturated_stream)))
   \<and> SetRemoteConsumed example_flags 5 saturated_stream
       = Inr (saturated_stream\<lparr> remote_consumed := 5 \<rparr>, [])"
proof -
  let ?c' = "crowded_stream\<lparr> host_socket :=
                  Some \<lparr> total_streams_unconsumed_size = 190, writes = [] \<rparr>,
                cur_buf_size := 10, remote_consumed := 10, writable_wait_list := [] \<rparr>"
  let ?g' = "saturated_stream\<lparr> host_socket :=
                  Some \<lparr> total_streams_unconsumed_size = 95, writes = [] \<rparr>,
                cur_buf_size := 20, remote_consumed := 5 \<rparr>"
  let ?o' = "saturated_stream\<lparr> remote_consumed := 5 \<rparr>"
  have p1: "remote_consumed crowded_stream < 10"
    by (simp add: crowded_stream_def example_stream_def Stream_ctor_def)
  have p2: "SetRemoteConsumed pressure_flags 10 crowded_stream = Inr (?c', [])"
    by (simp add: SetRemoteConsumed_def adapt_cur_buf_size_def CHECK_def pressure_flags_def
        example_flags_def crowded_stream_def example_stream_def example_options_def
        Stream_ctor_def)
  have q1: "remote_consumed saturated_stream < 5"
    by (simp add: saturated_stream_def example_stream_def Stream_ctor_def)
  have q2: "SetRemoteConsumed pressure_flags 5 saturated_stream = Inr (?g', [])"
    by (simp add: SetRemoteConsumed_def adapt_cur_buf_size_def CHECK_def pressure_flags_def
        example_flags_def saturated_stream_def example_stream_def example_options_def
        Stream_ctor_def)
  have q3: "SetRemoteConsumed example_flags 5 saturated_stream = Inr (?o', [])"
    by (simp add: SetRemoteConsumed_def CHECK_def example_flags_def saturated_stream_def
        example_stream_def example_options_def Stream_ctor_def)
  from C5_adaptive_window [OF p1 p2]
  have a: "uint (cur_buf_size ?c') = sint (min_buf_size (options crowded_stream))"
    by (simp add: pressure_flags_def example_flags_def crowded_stream_def example_stream_def
        example_options_def Stream_ctor_def)
  from C5_adaptive_window [OF q1 q2]
  have b: "uint (cur_buf_size ?g')
             = min (2 * uint (cur_buf_size saturated_stream))
                   (sint (max_buf_size (options saturated_stream)))"
    by (simp add: pressure_flags_def example_flags_def saturated_stream_def example_stream_def
        example_options_def Stream_ctor_def)
  from C5_adaptive_window [OF q1 q3]
  have c: "cur_buf_size ?o' = cur_buf_size saturated_stream"
    by (simp add: example_flags_def)
  from a have a': "uint (10 :: size_t) = sint (min_buf_size (options crowded_stream))"
    by simp
  from b have b': "uint (20 :: size_t)
       = min (2 * uint (cur_buf_size saturated_stream))
             (sint (max_buf_size (options saturated_stream)))"
    by simp
  from p1 p2 q1 q2 q3 a' b' show ?thesis by simp
qed

section \<open>The window stays within its bounds\<close>

lemma adapt_cur_buf_size_window:
  assumes "0 < sint (max_buf_size (options s))"
    and "sint (min_buf_size (options s)) \<le> uint (cur_buf_size s)"
    and "uint (cur_buf_size s) \<le> sint (max_buf_size (options s))"
  shows "sint (min_buf_size (options s)) \<le> uint (adapt_cur_buf_size fl t v s)
       \<and> uint (adapt_cur_buf_size fl t v s) \<le> sint (max_buf_size (options s))"
proof -
  define c where "c = uint (cur_buf_size s)"
  define a where "a = uint (adapt_cur_buf_size fl t v s)"
  have c0: "0 \<le> c" by (simp add: c_def)
  have eq: "adapt_cur_buf_size fl t v s = cur_buf_size s \<Longrightarrow> a = c"
    by (simp add: a_def c_def)
  from adapt_cur_buf_size_uint [of fl t s v] assms(1)
  have "a = sint (min_buf_size (options s)) \<and> 0 < sint (min_buf_size (options s))
        \<or> a = c div 2 \<and> sint (min_buf_size (options s)) \<le> 0
        \<or> a = min (2 * c) (sint (max_buf_size (options s)))
        \<or> a = c"
    unfolding a_def [symmetric] c_def [symmetric]
    by (auto simp: eq a_def c_def split: if_splits)
  with c0 assms(2,3) show ?thesis
    unfolding a_def [symmetric] c_def [symmetric] by auto
qed

lemma SetRemoteConsumed_window:
  assumes "SetRemoteConsumed fl v s = Inr (s', woken)"
    and "0 < sint (max_buf_size (options s))"
    and "sint (min_buf_size (options s)) \<le> uint (cur_buf_size s)"
    and "uint (cur_buf_size s) \<le> sint (max_buf_size (options s))"
  shows "options s' = options s
       \<and> sint (min_buf_size (options s)) \<le> uint (cur_buf_size s')
       \<and> uint (cur_buf_size s') \<le> sint (max_buf_size (options s))"
proof (cases "remote_consumed s < v")
  case False
  with assms show ?thesis
    by (auto simp: SetRemoteConsumed_def CHECK_def split: if_splits)
next
  case True
  note e = SetRemoteConsumed_effective [OF True assms(1)]
  show ?thesis
  proof (cases "0 < sint (socket_max_streams_unconsumed_bytes fl)")
    case True
    from e(5) [OF True] obtain h :: Socket where
      "cur_buf_size s' = adapt_cur_buf_size fl
         (total_streams_unconsumed_size h - (v - remote_consumed s)) v s"
      by blast
    with adapt_cur_buf_size_window [OF assms(2-4)] e(3) show ?thesis by simp
  next
    case False
    with e(6) e(3) assms show ?thesis by simp
  qed
qed

lemma step_window:
  assumes "step fl x s = Inr (r, s')"
    and "0 < sint (max_buf_size (options s))"
    and "sint (min_buf_size (options s)) \<le> uint (cur_buf_size s)"
    and "uint (cur_buf_size s) \<le> sint (max_buf_size (options s))"
  shows "options s' = options s
       \<and> sint (min_buf_size (options s)) \<le> uint (cur_buf_size s')
       \<and> uint (cur_buf_size s') \<le> sint (max_buf_size (options s))"
proof (cases x)
  case (Write data w)
  with assms(1) have "AppendIfNotFull fl data w s = Inr (r, s')" by simp
  from AppendIfNotFull_window [OF this] assms show ?thesis by simp
next
  case (Feedback v)
  with assms(1) obtain woken where "SetRemoteConsumed fl v s = Inr (s', woken)"
    by (auto split: sum.splits)
  from SetRemoteConsumed_window [OF this assms(2-4)] show ?thesis .
next
  case (Bind rc sock)
  with assms show ?thesis
    by (auto simp: SetHostSocket_def CHECK_def Let_def split: if_splits sum.splits)
qed

lemma run_window:
  assumes "run fl xs s = Inr s'"
    and "0 < sint (max_buf_size (options s))"
    and "sint (min_buf_size (options s)) \<le> uint (cur_buf_size s)"
    and "uint (cur_buf_size s) \<le> sint (max_buf_size (options s))"
  shows "options s' = options s
       \<and> sint (min_buf_size (options s)) \<le> uint (cur_buf_size s')
       \<and> uint (cur_buf_size s') \<le> sint (max_buf_size (options s))"
  using assms
proof (induction xs arbitrary: s)
  case Nil
  then show ?case by simp
next
  case (Cons x xs)
  from Cons.prems(1) obtain r s1 where
    st: "step fl x s = Inr (r, s1)" and rest: "run fl xs s1 = Inr s'"
    by (auto split: sum.splits)
  from step_window [OF st Cons.prems(2-4)] have
    o: "options s1 = options s"
    and lo: "sint (min_buf_size (options s)) \<le> uint (cur_buf_size s1)"
    and hi: "uint (cur_buf_size s1) \<le> sint (max_buf_size (options s))"
    by simp_all
  from Cons.IH [OF rest] o lo hi Cons.prems(2) show ?case by simp
qed

lemma Create_window:
  assumes "Create fl opts remote parse env = Inr (Some s0)"
  shows "min_buf_size (options s0)
           = (if 0 < sint (max_buf_size opts) \<and> sint (max_buf_size opts) < sint (min_buf_size opts)
              then 0 else min_buf_size opts)"
    and "max_buf_size (options s0) = max_buf_size opts"
    and "uint (cur_buf_size s0)
           = (if 0 < sint (socket_max_streams_unconsumed_bytes fl)
                 \<and> 0 < sint (min_buf_size (options s0))
              then sint (min_buf_size (options s0))
              else if 0 < sint (max_buf_size opts) then sint (max_buf_size opts) else 0)"
    and "produced s0 = 0" and "remote_consumed s0 = 0" and "closed s0 = False" and "error_text s0 = []"
  using assms
  by (auto simp: Create_def CHECK_def Let_def Stream_ctor_def uint_scast_nonneg
      split: if_splits option.splits)

text \<open>
  C6, as the claim states it, fails on the code in three places. With the aggregate
  limit enabled (150) and \<open>min_buf_size = 0\<close>, \<open>max_buf_size = 10\<close>, the window at creation
  is 10, not \<open>min_buf_size\<close>. With \<open>min_buf_size = 5\<close> and \<open>max_buf_size = 0\<close>, the minimum
  is larger than the maximum and is not reset to 0; the window at creation is 5, and
  after the stream is bound, 20 bytes are written and feedback 1 arrives, the first
  adjustment doubles the window to 10, above \<open>max_buf_size\<close>.
\<close>

theorem C6_counterexample:
  "Create pressure_flags (example_options 0 10) None False example_env
     = Inr (Some (example_stream 0 10 10))
   \<and> 0 < sint (socket_max_streams_unconsumed_bytes pressure_flags)
   \<and> uint (cur_buf_size (example_stream 0 10 10)) = 10
   \<and> sint (min_buf_size (options (example_stream 0 10 10))) = 0
   \<and> Create pressure_flags (example_options 5 0) None False example_env
       = Inr (Some (example_stream 5 0 5))
   \<and> sint (max_buf_size (example_options 5 0)) < sint (min_buf_size (example_options 5 0))
   \<and> sint (min_buf_size (options (example_stream 5 0 5))) = 5
   \<and> run pressure_flags [Bind 0 example_socket, Write ''0123456789abcdefghij'' 0, Feedback 1]
        (example_stream 5 0 5)
       = Inr ((example_stream 5 0 5)\<lparr>
           host_socket := Some \<lparr> total_streams_unconsumed_size = 19, writes = [] \<rparr>,
           set_host_socket_flag := True, produced := 20, remote_consumed := 1,
           cur_buf_size := 10 \<rparr>)
   \<and> sint (max_buf_size (options (example_stream 5 0 5))) < uint (10 :: size_t)"
proof -
  have a: "Create pressure_flags (example_options 0 10) None False example_env
     = Inr (Some (example_stream 0 10 10))"
    by (simp add: Create_def pressure_flags_def example_flags_def example_options_def
        example_env_def example_stream_def Stream_ctor_def Let_def)
  have b: "Create pressure_flags (example_options 5 0) None False example_env
       = Inr (Some (example_stream 5 0 5))"
    by (simp add: Create_def pressure_flags_def example_flags_def example_options_def
        example_env_def example_stream_def Stream_ctor_def Let_def)
  have c: "run pressure_flags [Bind 0 example_socket, Write ''0123456789abcdefghij'' 0, Feedback 1]
        (example_stream 5 0 5)
       = Inr ((example_stream 5 0 5)\<lparr>
           host_socket := Some \<lparr> total_streams_unconsumed_size = 19, writes = [] \<rparr>,
           set_host_socket_flag := True, produced := 20, remote_consumed := 1,
           cur_buf_size := 10 \<rparr>)"
    by (simp add: SetHostSocket_def AppendIfNotFull_def AppendIfNotFull_admit_def
        SetRemoteConsumed_def adapt_cur_buf_size_def CHECK_def pressure_flags_def
        example_flags_def example_socket_def example_stream_def example_options_def
        Stream_ctor_def)
  have d: "0 < sint (socket_max_streams_unconsumed_bytes pressure_flags)
      \<and> sint (max_buf_size (example_options 5 0)) < sint (min_buf_size (example_options 5 0))"
    by (simp add: pressure_flags_def example_flags_def example_options_def)
  from a b c d show ?thesis
    by (simp add: example_stream_fields example_options_def)
qed

text \<open>
  C6, amended. \<open>Create\<close> resets \<open>min_buf_size\<close> to 0 exactly when \<open>max_buf_size > 0\<close> and
  \<open>min_buf_size > max_buf_size\<close>, and keeps \<open>max_buf_size\<close>. The window at creation is
  \<open>min_buf_size\<close> (as just reset) when the aggregate limit is enabled and that
  \<open>min_buf_size\<close> is positive, otherwise \<open>max_buf_size\<close> when that is positive, otherwise
  0. For a stream created with \<open>max_buf_size > 0\<close>, across every run of writes, feedback
  and binding (under any flags), the options stay as created and \<open>cur_buf_size\<close> stays
  within \<open>[min_buf_size, max_buf_size]\<close>, before and after every window adjustment.
\<close>

theorem C6_window_bounds:
  assumes "Create fl opts remote parse env = Inr (Some s0)"
  shows "min_buf_size (options s0)
           = (if 0 < sint (max_buf_size opts) \<and> sint (max_buf_size opts) < sint (min_buf_size opts)
              then 0 else min_buf_size opts)
       \<and> max_buf_size (options s0) = max_buf_size opts
       \<and> uint (cur_buf_size s0)
           = (if 0 < sint (socket_max_streams_unconsumed_bytes fl)
                 \<and> 0 < sint (min_buf_size (options s0))
              then sint (min_buf_size (options s0))
              else if 0 < sint (max_buf_size opts) then sint (max_buf_size opts) else 0)
       \<and> (0 < sint (max_buf_size opts) \<longrightarrow>
            (\<forall>fl' ops s. run fl' ops s0 = Inr s \<longrightarrow>
               options s = options s0
               \<and> sint (min_buf_size (options s0)) \<le> uint (cur_buf_size s)
               \<and> uint (cur_buf_size s) \<le> sint (max_buf_size opts)))"
proof -
  note c = Create_window [OF assms]
  have inv: "options s = options s0
               \<and> sint (min_buf_size (options s0)) \<le> uint (cur_buf_size s)
               \<and> uint (cur_buf_size s) \<le> sint (max_buf_size opts)"
    if pos: "0 < sint (max_buf_size opts)" and r: "run fl' ops s0 = Inr s" for fl' ops s
  proof -
    from pos c(2) have p: "0 < sint (max_buf_size (options s0))" by simp
    from pos c(1) have mm: "sint (min_buf_size (options s0)) \<le> sint (max_buf_size opts)"
      by (simp split: if_splits)
    from pos c(3) mm have lo: "sint (min_buf_size (options s0)) \<le> uint (cur_buf_size s0)"
      by (simp split: if_splits)
    from pos c(3) mm c(2) have hi: "uint (cur_buf_size s0) \<le> sint (max_buf_size (options s0))"
      by (simp split: if_splits)
    from run_window [OF r p lo hi] c(2) show ?thesis by simp
  qed
  from c(1,2,3) inv show ?thesis by blast
qed

theorem C6_window_bounds_witness:
  "Create pressure_flags (example_options 10 100) None False example_env
     = Inr (Some (example_stream 10 100 10))
   \<and> 0 < sint (max_buf_size (example_options 10 100))
   \<and> run pressure_flags [Bind 0 example_socket, Write ''0123456789ab'' 0, Feedback 1]
        (example_stream 10 100 10)
       = Inr ((example_stream 10 100 10)\<lparr>
           host_socket := Some \<lparr> total_streams_unconsumed_size = 11, writes = [] \<rparr>,
           set_host_socket_flag := True, produced := 12, remote_consumed := 1,
           cur_buf_size := 20 \<rparr>)
   \<and> sint (min_buf_size (options (example_stream 10 100 10))) \<le> uint (20 :: size_t)
   \<and> uint (20 :: size_t) \<le> sint (max_buf_size (example_options 10 100))"
proof -
  let ?s = "(example_stream 10 100 10)\<lparr>
           host_socket := Some \<lparr> total_streams_unconsumed_size = 11, writes = [] \<rparr>,
           set_host_socket_flag := True, produced := 12, remote_consumed := 1,
           cur_buf_size := 20 \<rparr>"
  have a: "Create pressure_flags (example_options 10 100) None False example_env
     = Inr (Some (example_stream 10 100 10))"
    by (simp add: Create_def pressure_flags_def example_flags_def example_options_def
        example_env_def example_stream_def Stream_ctor_def Let_def)
  have p: "0 < sint (max_buf_size (example_options 10 100))"
    by (simp add: example_options_def)
  have r: "run pressure_flags [Bind 0 example_socket, Write ''0123456789ab'' 0, Feedback 1]
        (example_stream 10 100 10) = Inr ?s"
    by (simp add: SetHostSocket_def AppendIfNotFull_def AppendIfNotFull_admit_def
        SetRemoteConsumed_def adapt_cur_buf_size_def CHECK_def pressure_flags_def
        example_flags_def example_socket_def example_stream_def example_options_def
        Stream_ctor_def)
  from C6_window_bounds [OF a] p r
  have "sint (min_buf_size (options (example_stream 10 100 10))) \<le> uint (cur_buf_size ?s)
      \<and> uint (cur_buf_size ?s) \<le> sint (max_buf_size (example_options 10 100))"
    by blast
  with a p r show ?thesis by simp
qed


section \<open>Segmentation and reassembly\<close>

lemma spec_pieces_short: "length b \<le> M \<Longrightarrow> spec_pieces M b = [b]"
  by (simp add: spec_pieces.simps)

lemma spec_pieces_long:
  "0 < M \<Longrightarrow> M < length b \<Longrightarrow> spec_pieces M b = take M b # spec_pieces M (drop M b)"
  by (subst spec_pieces.simps) simp

lemma spec_pieces_not_Nil: "spec_pieces M b \<noteq> []"
  by (subst spec_pieces.simps) simp

lemma spec_pieces_concat: "concat (spec_pieces M b) = b"
proof (induction M b rule: spec_pieces.induct)
  case (1 M b)
  show ?case
  proof (cases "M = 0 \<or> length b \<le> M")
    case True
    then show ?thesis by (subst spec_pieces.simps) simp
  next
    case False
    with 1 show ?thesis by (subst spec_pieces.simps) simp
  qed
qed

lemma spec_frames_short:
  "length b \<le> M \<Longrightarrow> spec_frames M fm b = [(fm\<lparr> has_continuation := False \<rparr>, b)]"
  by (simp add: spec_frames_def spec_pieces_short)

lemma spec_frames_long:
  "0 < M \<Longrightarrow> M < length b \<Longrightarrow>
     spec_frames M fm b
       = (fm\<lparr> has_continuation := True \<rparr>, take M b) # spec_frames M fm (drop M b)"
  by (simp add: spec_frames_def spec_pieces_long spec_pieces_not_Nil)

lemma cut_segments_frames:
  assumes "0 < M"
  shows "\<exists>ws. cut_segments M fm data st
            = Some (st\<lparr> out := [], len := len st + length data,
                        host := (host st)\<lparr> writes := writes (host st) @ ws \<rparr> \<rparr>)
          \<and> concat ws = out st @ spec_frames M fm data"
  using assms
proof (induction "length data" arbitrary: data st rule: less_induct)
  case less
  show ?case
  proof (cases "M < length data")
    case False
    then have "cut_segments M fm data st
            = Some (st\<lparr> out := [], len := len st + length data,
                        host := (host st)\<lparr> writes := writes (host st)
                           @ [out st @ [(fm\<lparr> has_continuation := False \<rparr>, data)]] \<rparr> \<rparr>)"
      by (subst cut_segments.simps) (simp add: Let_def WriteToHostSocket_def)
    moreover from False
    have "concat [out st @ [(fm\<lparr> has_continuation := False \<rparr>, data)]]
            = out st @ spec_frames M fm data"
      by (simp add: spec_frames_short)
    ultimately show ?thesis by blast
  next
    case True
    let ?out1 = "out st @ [(fm\<lparr> has_continuation := True \<rparr>, take M data)]"
    let ?st1 = "st\<lparr> out := [], len := len st + length (take M data),
                    host := WriteToHostSocket ?out1 (host st) \<rparr>"
    from True have ne: "drop M data \<noteq> []" by simp
    from True less.prems have sm: "length (drop M data) < length data" by simp
    from ne have u: "cut_segments M fm data st = cut_segments M fm (drop M data) ?st1"
      by (subst cut_segments.simps) (simp add: Let_def)
    from less.hyps [OF sm less.prems, of ?st1] obtain ws1 where
      r: "cut_segments M fm (drop M data) ?st1
            = Some (?st1\<lparr> out := [], len := len ?st1 + length (drop M data),
                        host := (host ?st1)\<lparr> writes := writes (host ?st1) @ ws1 \<rparr> \<rparr>)"
      and c: "concat ws1 = out ?st1 @ spec_frames M fm (drop M data)"
      by blast
    from True have l: "length (take M data) + length (drop M data) = length data" by simp
    from u r l have "cut_segments M fm data st
            = Some (st\<lparr> out := [], len := len st + length data,
                        host := (host st)\<lparr> writes := writes (host st) @ (?out1 # ws1) \<rparr> \<rparr>)"
      by (simp add: WriteToHostSocket_def add.assoc)
    moreover from c True less.prems have "concat (?out1 # ws1) = out st @ spec_frames M fm data"
      by (simp add: spec_frames_long)
    ultimately show ?thesis by blast
  qed
qed

text \<open>With a segment size of 0 the segmenting loop never returns on a non-empty
  buffer.\<close>

lemma cut_segments_zero_Some:
  assumes "cut_segments M fm data st = Some y"
  shows "M = 0 \<longrightarrow> data = []"
proof (rule cut_segments.raw_induct
    [where P = "\<lambda>M fm data st y. M = 0 \<longrightarrow> data = []", OF _ assms])
  fix f :: "nat \<Rightarrow> StreamFrameMeta \<Rightarrow> IOBuf \<Rightarrow> CutState \<Rightarrow> CutState option"
    and M' fm' data' st' y'
  assume IH: "\<And>M fm data st y. f M fm data st = Some y \<Longrightarrow> M = 0 \<longrightarrow> data = []"
    and body: "(let segment_buf = take M' data'; data1 = drop M' data';
                    has_cont = (data1 \<noteq> []);
                    out1 = out st' @ [(fm'\<lparr> has_continuation := has_cont \<rparr>, segment_buf)];
                    st1 = st'\<lparr> out := [], len := len st' + length segment_buf,
                               host := WriteToHostSocket out1 (host st') \<rparr>
                in if has_cont then f M' fm' data1 st1 else Some st1) = Some y'"
  show "M' = 0 \<longrightarrow> data' = []"
  proof
    assume z: "M' = 0"
    show "data' = []"
    proof (rule ccontr)
      assume ne: "data' \<noteq> []"
      with z body obtain st1 where "f 0 fm' data' st1 = Some y'"
        by (auto simp: Let_def)
      from IH [OF this] ne show False by simp
    qed
  qed
qed

lemma cut_segments_zero: "data \<noteq> [] \<Longrightarrow> cut_segments 0 fm data st = None"
  using cut_segments_zero_Some [of 0 fm data st] by (cases "cut_segments 0 fm data st") auto

lemma maybe_flush_out:
  "\<exists>ws0. host (if c then flush_out st else st) = (host st)\<lparr> writes := writes (host st) @ ws0 \<rparr>
        \<and> concat ws0 @ out (if c then flush_out st else st) = out st
        \<and> len (if c then flush_out st else st) = len st"
proof (cases c)
  case True
  then have "host (if c then flush_out st else st)
               = (host st)\<lparr> writes := writes (host st) @ [out st] \<rparr>
        \<and> concat [out st] @ out (if c then flush_out st else st) = out st
        \<and> len (if c then flush_out st else st) = len st"
    by (simp add: flush_out_def WriteToHostSocket_def)
  then show ?thesis by blast
next
  case False
  then have "host (if c then flush_out st else st)
               = (host st)\<lparr> writes := writes (host st) @ [] \<rparr>
        \<and> concat [] @ out (if c then flush_out st else st) = out st
        \<and> len (if c then flush_out st else st) = len st"
    by simp
  then show ?thesis by blast
qed

lemma writes_append_twice:
  "h1 = (h :: Socket)\<lparr> writes := writes h @ a \<rparr> \<Longrightarrow> h2 = h1\<lparr> writes := writes h1 @ b \<rparr> \<Longrightarrow>
     h2 = h\<lparr> writes := writes h @ (a @ b) \<rparr>"
  by simp

lemma cut_data_list_frames:
  assumes "0 < M"
  shows "\<exists>ws st'. cut_data_list M fm bufs st = Some st'
          \<and> host st' = (host st)\<lparr> writes := writes (host st) @ ws \<rparr>
          \<and> len st' = len st + sum_list (map length bufs)
          \<and> concat ws @ out st' = out st @ concat (map (spec_frames M fm) bufs)"
proof (induction bufs arbitrary: st)
  case Nil
  have "host st = (host st)\<lparr> writes := writes (host st) @ [] \<rparr>" by simp
  then show ?case by (intro exI [of _ "[]"] exI [of _ st]) simp
next
  case (Cons data rest)
  show ?case
  proof (cases "M < length data")
    case True
    define st1 where "st1 = (if unwritten_data_size st \<noteq> 0 then flush_out st else st)"
    from maybe_flush_out [of "unwritten_data_size st \<noteq> 0" st] obtain ws0 where
      h1: "host st1 = (host st)\<lparr> writes := writes (host st) @ ws0 \<rparr>"
      and c1: "concat ws0 @ out st1 = out st" and l1: "len st1 = len st"
      unfolding st1_def by blast
    define st2 where "st2 ws = st1\<lparr> out := [], len := len st1 + length data,
                        host := (host st1)\<lparr> writes := writes (host st1) @ ws \<rparr> \<rparr>" for ws
    from cut_segments_frames [OF assms, of fm data st1] obtain ws1 where
      r: "cut_segments M fm data st1 = Some (st2 ws1)"
      and c2: "concat ws1 = out st1 @ spec_frames M fm data"
      unfolding st2_def by blast
    from Cons.IH [of "st2 ws1"] obtain ws2 st' where
      r2: "cut_data_list M fm rest (st2 ws1) = Some st'"
      and h2: "host st' = (host (st2 ws1))\<lparr> writes := writes (host (st2 ws1)) @ ws2 \<rparr>"
      and l2: "len st' = len (st2 ws1) + sum_list (map length rest)"
      and c3: "concat ws2 @ out st' = out (st2 ws1) @ concat (map (spec_frames M fm) rest)"
      by blast
    have f2: "host (st2 ws1) = (host st1)\<lparr> writes := writes (host st1) @ ws1 \<rparr>"
      "len (st2 ws1) = len st1 + length data" "out (st2 ws1) = []"
      by (simp_all add: st2_def)
    from True r r2 have a: "cut_data_list M fm (data # rest) st = Some st'"
      by (simp add: st1_def)
    from writes_append_twice [OF h1 f2(1)] have "host (st2 ws1)
        = (host st)\<lparr> writes := writes (host st) @ (ws0 @ ws1) \<rparr>" .
    from writes_append_twice [OF this h2]
    have b: "host st' = (host st)\<lparr> writes := writes (host st) @ ((ws0 @ ws1) @ ws2) \<rparr>" .
    from l2 l1 f2(2) have c: "len st' = len st + sum_list (map length (data # rest))" by simp
    have "concat ((ws0 @ ws1) @ ws2) @ out st'
        = concat ws0 @ concat ws1 @ (concat ws2 @ out st')" by simp
    also have "\<dots> = concat ws0 @ (out st1 @ spec_frames M fm data)
                    @ concat (map (spec_frames M fm) rest)"
      by (simp only: c3 c2 f2(3) append_Nil)
    also have "\<dots> = (concat ws0 @ out st1) @ spec_frames M fm data
                    @ concat (map (spec_frames M fm) rest)" by simp
    also have "\<dots> = out st @ concat (map (spec_frames M fm) (data # rest))"
      by (simp only: c1) simp
    finally have d: "concat ((ws0 @ ws1) @ ws2) @ out st'
        = out st @ concat (map (spec_frames M fm) (data # rest))" .
    from a b c d show ?thesis by blast
  next
    case False
    define st1 where "st1 = (if M < unwritten_data_size st + length data then flush_out st else st)"
    from maybe_flush_out [of "M < unwritten_data_size st + length data" st] obtain ws0 where
      h1: "host st1 = (host st)\<lparr> writes := writes (host st) @ ws0 \<rparr>"
      and c1: "concat ws0 @ out st1 = out st" and l1: "len st1 = len st"
      unfolding st1_def by blast
    define st2 where "st2 = st1\<lparr> unwritten_data_size := unwritten_data_size st1 + length data,
                    out := out st1 @ [(fm\<lparr> has_continuation := False \<rparr>, data)],
                    len := len st1 + length data \<rparr>"
    from Cons.IH [of st2] obtain ws2 st' where
      r2: "cut_data_list M fm rest st2 = Some st'"
      and h2: "host st' = (host st2)\<lparr> writes := writes (host st2) @ ws2 \<rparr>"
      and l2: "len st' = len st2 + sum_list (map length rest)"
      and c3: "concat ws2 @ out st' = out st2 @ concat (map (spec_frames M fm) rest)"
      by blast
    have f2: "host st2 = host st1" "len st2 = len st1 + length data"
      "out st2 = out st1 @ [(fm\<lparr> has_continuation := False \<rparr>, data)]"
      by (simp_all add: st2_def)
    from False r2 have a: "cut_data_list M fm (data # rest) st = Some st'"
      by (simp add: st1_def st2_def Let_def)
    from h1 f2(1) have "host st2 = (host st)\<lparr> writes := writes (host st) @ ws0 \<rparr>" by simp
    from writes_append_twice [OF this h2]
    have b: "host st' = (host st)\<lparr> writes := writes (host st) @ (ws0 @ ws2) \<rparr>" .
    from l2 l1 f2(2) have c: "len st' = len st + sum_list (map length (data # rest))" by simp
    from False have sf: "spec_frames M fm data = [(fm\<lparr> has_continuation := False \<rparr>, data)]"
      by (simp add: spec_frames_short)
    have "concat (ws0 @ ws2) @ out st' = concat ws0 @ (concat ws2 @ out st')" by simp
    also have "\<dots> = concat ws0 @ (out st1 @ spec_frames M fm data)
                    @ concat (map (spec_frames M fm) rest)"
      by (simp only: c3 f2(3) sf)
    also have "\<dots> = (concat ws0 @ out st1) @ spec_frames M fm data
                    @ concat (map (spec_frames M fm) rest)" by simp
    also have "\<dots> = out st @ concat (map (spec_frames M fm) (data # rest))"
      by (simp only: c1) simp
    finally have d: "concat (ws0 @ ws2) @ out st'
        = out st @ concat (map (spec_frames M fm) (data # rest))" .
    from a b c d show ?thesis by blast
  qed
qed

lemma CutMessageIntoFileDescriptor_frames:
  assumes "stream_write_max_segment_size fl \<noteq> 0"
    and "host_socket s = Some h" and "writable (remote_settings s)"
  shows "\<exists>ws. CutMessageIntoFileDescriptor fl bufs s
            = Some (Inr (int (sum_list (map length bufs)), None,
                         s\<lparr> host_socket := Some (h\<lparr> writes := writes h @ ws \<rparr>) \<rparr>))
          \<and> concat ws
              = concat (map (spec_frames (unat (stream_write_max_segment_size fl))
                   \<lparr> fm_stream_id = stream_id (remote_settings s),
                     fm_source_stream_id = id' s, frame_type = FRAME_TYPE_DATA,
                     has_continuation = False, feedback_consumed_size = 0 \<rparr>) bufs)"
proof -
  let ?M = "unat (stream_write_max_segment_size fl)"
  let ?fm = "\<lparr> fm_stream_id = stream_id (remote_settings s),
                     fm_source_stream_id = id' s, frame_type = FRAME_TYPE_DATA,
                     has_continuation = False, feedback_consumed_size = 0 \<rparr>"
  let ?st = "\<lparr> out = [], len = 0, unwritten_data_size = 0, host = h \<rparr>"
  from assms(1) have M: "0 < ?M" by (simp add: unat_gt_0)
  from cut_data_list_frames [OF M, of ?fm bufs ?st] obtain ws st' where
    r: "cut_data_list ?M ?fm bufs ?st = Some st'"
    and hh: "host st' = h\<lparr> writes := writes h @ ws \<rparr>"
    and l: "len st' = sum_list (map length bufs)"
    and c: "concat ws @ out st' = concat (map (spec_frames ?M ?fm) bufs)"
    by auto
  define h' where "h' = (if out st' \<noteq> [] then WriteToHostSocket (out st') (host st') else host st')"
  have e: "CutMessageIntoFileDescriptor fl bufs s
            = Some (Inr (int (sum_list (map length bufs)), None, s\<lparr> host_socket := Some h' \<rparr>))"
    using assms(2,3) r l by (simp add: CutMessageIntoFileDescriptor_def h'_def)
  show ?thesis
  proof (cases "out st' = []")
    case True
    with hh have "h' = h\<lparr> writes := writes h @ ws \<rparr>" by (simp add: h'_def)
    moreover from True c have "concat ws = concat (map (spec_frames ?M ?fm) bufs)" by simp
    ultimately show ?thesis using e by blast
  next
    case False
    with hh have "h' = h\<lparr> writes := writes h @ (ws @ [out st']) \<rparr>"
      by (simp add: h'_def WriteToHostSocket_def)
    moreover from c have "concat (ws @ [out st']) = concat (map (spec_frames ?M ?fm) bufs)"
      by simp
    ultimately show ?thesis using e by blast
  qed
qed

lemma OnReceived_data:
  assumes "frame_type fm = FRAME_TYPE_DATA" and "host_socket r \<noteq> None"
    and "\<not> queue_stopped r"
  shows "OnReceived fl env fm buf sock r
     = Inr (0,
         (if has_continuation fm
          then r\<lparr> pending_buf := Some (case pending_buf r of None \<Rightarrow> buf | Some p \<Rightarrow> p @ buf) \<rparr>
          else r\<lparr> pending_buf := None,
                  consumer_queue := consumer_queue r
                    @ [Msg (case pending_buf r of None \<Rightarrow> buf | Some p \<Rightarrow> p @ buf)] \<rparr>),
         [], [])"
proof -
  from assms(2) obtain h where "host_socket r = Some h" by auto
  with assms(1,3) show ?thesis
    by (simp add: OnReceived_def execution_queue_execute_def Let_def)
qed

lemma receive_pieces:
  assumes "frame_type fm = FRAME_TYPE_DATA" and "host_socket r \<noteq> None"
    and "\<not> queue_stopped r"
  shows "receive_frames fl env
           (map (\<lambda>piece. (fm\<lparr> has_continuation := True \<rparr>, piece)) ps
              @ [(fm\<lparr> has_continuation := False \<rparr>, l)]) sock r
         = Inr (r\<lparr> pending_buf := None,
                  consumer_queue := consumer_queue r
                    @ [Msg ((case pending_buf r of None \<Rightarrow> [] | Some p \<Rightarrow> p) @ concat ps @ l)] \<rparr>)"
  using assms
proof (induction ps arbitrary: r)
  case Nil
  then show ?case
    by (simp add: OnReceived_data split: option.splits)
next
  case (Cons p ps)
  let ?r1 = "r\<lparr> pending_buf := Some (case pending_buf r of None \<Rightarrow> p | Some q \<Rightarrow> q @ p) \<rparr>"
  from Cons.prems have s: "OnReceived fl env (fm\<lparr> has_continuation := True \<rparr>) p sock r
      = Inr (0, ?r1, [], [])"
    by (simp add: OnReceived_data)
  from Cons.prems have "host_socket ?r1 \<noteq> None" "\<not> queue_stopped ?r1" by simp_all
  from Cons.IH [OF Cons.prems(1) this] s show ?case
    by (simp split: option.splits)
qed

lemma receive_frames_append:
  "receive_frames fl env (xs @ ys) sock r
     = (case receive_frames fl env xs sock r of
          Inl e \<Rightarrow> Inl e
        | Inr r1 \<Rightarrow> receive_frames fl env ys sock r1)"
  by (induction xs arbitrary: r) (auto split: sum.splits)

lemma receive_spec_frames:
  assumes "frame_type fm = FRAME_TYPE_DATA" and "host_socket r \<noteq> None"
    and "\<not> queue_stopped r" and "pending_buf r = None"
  shows "receive_frames fl env (spec_frames M fm b) sock r
         = Inr (r\<lparr> consumer_queue := consumer_queue r @ [Msg b] \<rparr>)"
proof -
  have "concat (butlast (spec_pieces M b)) @ last (spec_pieces M b) = b"
    using spec_pieces_concat [of M b] spec_pieces_not_Nil [of M b]
    by (metis append_butlast_last_id concat.simps(1,2) concat_append self_append_conv)
  with receive_pieces [OF assms(1-3), of fl env "butlast (spec_pieces M b)"
      "last (spec_pieces M b)" sock] assms(4)
  show ?thesis by (simp add: spec_frames_def)
qed

lemma receive_all_frames:
  assumes "frame_type fm = FRAME_TYPE_DATA" and "host_socket r \<noteq> None"
    and "\<not> queue_stopped r" and "pending_buf r = None"
  shows "receive_frames fl env (concat (map (spec_frames M fm) bufs)) sock r
         = Inr (r\<lparr> consumer_queue := consumer_queue r @ map Msg bufs \<rparr>)"
  using assms
proof (induction bufs arbitrary: r)
  case Nil
  then show ?case by simp
next
  case (Cons b bufs)
  let ?r1 = "r\<lparr> consumer_queue := consumer_queue r @ [Msg b] \<rparr>"
  from Cons.prems have p: "host_socket ?r1 \<noteq> None" "\<not> queue_stopped ?r1" "pending_buf ?r1 = None"
    by simp_all
  from receive_spec_frames [OF Cons.prems(1-4), of fl env M b sock]
    Cons.IH [OF Cons.prems(1) p]
  show ?case by (simp add: receive_frames_append)
qed

lemma push_total:
  "push s t mb = Inr (mb1, evs) \<Longrightarrow>
     mb_total_length mb1 = mb_total_length mb + of_nat (length t) \<and> mb_cap mb1 = mb_cap mb"
  by (auto simp: push_def flush_def Let_def split: if_splits prod.splits)

lemma Consume_tasks_plain:
  assumes "\<not> parse_rpc_response s"
    and "Consume_tasks fl env iter (s, mb, ht, evs) = Inr (s1, mb1, ht1, evs1)"
  shows "s1 = s \<and> mb_total_length mb1 = mb_total_length mb + total_message_length iter"
  using assms
proof (induction iter arbitrary: mb ht evs)
  case Nil
  then show ?case by simp
next
  case (Cons x iter)
  show ?case
  proof (cases x)
    case TIMEOUT_TASK
    with Cons show ?thesis by simp
  next
    case (Msg t)
    with Cons.prems obtain mb2 evs2 where
      p: "push s t mb = Inr (mb2, evs2)"
      and r: "Consume_tasks fl env iter (s, mb2, ht, evs @ evs2) = Inr (s1, mb1, ht1, evs1)"
      by (auto split: sum.splits)
    from Cons.IH [OF Cons.prems(1) r] push_total [OF p] Msg show ?thesis
      by (simp add: add.assoc)
  qed
qed

lemma StartIdleTimer_fields:
  "local_consumed (StartIdleTimer s) = local_consumed s"
  "host_socket (StartIdleTimer s) = host_socket s"
  "remote_settings (StartIdleTimer s) = remote_settings s"
  "id' (StartIdleTimer s) = id' s"
  "options (StartIdleTimer s) = options s"
  by (simp_all add: StartIdleTimer_def)

lemma StopIdleTimer_fields:
  "local_consumed (StopIdleTimer s) = local_consumed s"
  "host_socket (StopIdleTimer s) = host_socket s"
  "remote_settings (StopIdleTimer s) = remote_settings s"
  "id' (StopIdleTimer s) = id' s"
  "options (StopIdleTimer s) = options s"
  "parse_rpc_response (StopIdleTimer s) = parse_rpc_response s"
  "error_code (StopIdleTimer s) = error_code s"
  "error_text (StopIdleTimer s) = error_text s"
  by (simp_all add: StopIdleTimer_def)

lemma Consume_feedback:
  assumes "Consume_tasks fl env iter
             (StopIdleTimer s,
              \<lparr> mb_storage = [], mb_cap = messages_in_batch (options (StopIdleTimer s)),
                mb_total_length = 0 \<rparr>, False, []) = Inr (s1, mb, ht, evs1)"
    and "Consume fl env iter False s = Inr (rc, so, evs)"
  shows "\<exists>s'. so = Some s' \<and> rc = 0
           \<and> (if need_feedback (remote_settings s1) \<and> mb_total_length mb \<noteq> 0
               then local_consumed s' = local_consumed s1 + mb_total_length mb
                    \<and> (\<exists>h. host_socket s1 = Some h
                          \<and> host_socket s' = Some (h\<lparr> writes := writes h
                                @ [[(\<lparr> fm_stream_id = stream_id (remote_settings s1),
                                      fm_source_stream_id = id' s1,
                                      frame_type = FRAME_TYPE_FEEDBACK, has_continuation = False,
                                      feedback_consumed_size = local_consumed s' \<rparr>, [])]] \<rparr>))
               else local_consumed s' = local_consumed s1 \<and> host_socket s' = host_socket s1)"
  using assms
  by (auto simp: Consume_def Let_def flush_def SendFeedback_def WriteToHostSocket_def
      StartIdleTimer_fields word_greater_zero_iff
      split: if_splits option.splits sum.splits prod.splits)

lemma received_append: "received (xs @ ys) = received xs @ received ys"
  by (induction xs rule: received.induct) simp_all

lemma push_delivers:
  assumes "handler (options s)" and "mb_cap mb \<noteq> 0"
    and "length (mb_storage mb) \<le> unat (mb_cap mb)"
  shows "\<exists>mb1 evs. push s t mb = Inr (mb1, evs)
           \<and> received evs @ mb_storage mb1 = mb_storage mb @ [t]
           \<and> mb_cap mb1 = mb_cap mb
           \<and> length (mb_storage mb1) \<le> unat (mb_cap mb1)"
proof -
  from assms(2) have c: "0 < unat (mb_cap mb)" by (simp add: unat_gt_0)
  show ?thesis
  proof (cases "length (mb_storage mb) = unat (mb_cap mb)")
    case True
    with c have "mb_storage mb \<noteq> []" by auto
    with True c assms(1) show ?thesis
      by (simp add: push_def flush_def Let_def)
  next
    case False
    with assms(3) have "length (mb_storage mb) < unat (mb_cap mb)" by simp
    with False show ?thesis
      by (simp add: push_def Let_def)
  qed
qed

lemma Consume_tasks_delivers:
  assumes "handler (options s)" and "\<not> parse_rpc_response s" and "mb_cap mb \<noteq> 0"
    and "length (mb_storage mb) \<le> unat (mb_cap mb)"
  shows "\<exists>mb1 evs1. Consume_tasks fl env (map Msg bufs) (s, mb, ht, evs) = Inr (s, mb1, ht, evs1)
           \<and> received evs1 @ mb_storage mb1 = received evs @ mb_storage mb @ bufs"
  using assms(3,4)
proof (induction bufs arbitrary: mb evs)
  case Nil
  then show ?case by simp
next
  case (Cons b bufs)
  from push_delivers [OF assms(1) Cons.prems, of b] obtain mb2 evs2 where
    p: "push s b mb = Inr (mb2, evs2)"
    and d: "received evs2 @ mb_storage mb2 = mb_storage mb @ [b]"
    and c: "mb_cap mb2 \<noteq> 0" "length (mb_storage mb2) \<le> unat (mb_cap mb2)"
    using Cons.prems(1) by auto
  from Cons.IH [OF c, of "evs @ evs2"] obtain mb1 evs1 where
    r: "Consume_tasks fl env (map Msg bufs) (s, mb2, ht, evs @ evs2) = Inr (s, mb1, ht, evs1)"
    and e: "received evs1 @ mb_storage mb1 = received (evs @ evs2) @ mb_storage mb2 @ bufs"
    by blast
  from p r assms(2) have "Consume_tasks fl env (map Msg (b # bufs)) (s, mb, ht, evs)
      = Inr (s, mb1, ht, evs1)" by simp
  moreover have "received evs1 @ mb_storage mb1 = received evs @ mb_storage mb @ (b # bufs)"
  proof -
    have "received (evs @ evs2) @ mb_storage mb2 @ bufs
            = received evs @ (received evs2 @ mb_storage mb2) @ bufs"
      by (simp add: received_append)
    also have "\<dots> = received evs @ mb_storage mb @ (b # bufs)"
      by (simp only: d) simp
    finally show ?thesis using e by simp
  qed
  ultimately show ?case by blast
qed

lemma Consume_delivers:
  assumes "handler (options r)" and "\<not> parse_rpc_response r"
    and "messages_in_batch (options r) \<noteq> 0" and "host_socket r \<noteq> None"
  shows "\<exists>so evs. Consume fl env (map Msg bufs) False r = Inr (0, so, evs) \<and> received evs = bufs"
proof -
  let ?s = "StopIdleTimer r"
  let ?mb = "\<lparr> mb_storage = [], mb_cap = messages_in_batch (options ?s), mb_total_length = 0 \<rparr>"
  have h: "handler (options ?s)" "\<not> parse_rpc_response ?s" "mb_cap ?mb \<noteq> 0"
    "length (mb_storage ?mb) \<le> unat (mb_cap ?mb)"
    using assms by (simp_all add: StopIdleTimer_def)
  from Consume_tasks_delivers [OF h, of fl env bufs False "[]"] obtain mb1 evs1 where
    t: "Consume_tasks fl env (map Msg bufs) (?s, ?mb, False, []) = Inr (?s, mb1, False, evs1)"
    and d: "received evs1 @ mb_storage mb1 = bufs"
    by auto
  from assms(4) obtain hs where hs: "host_socket ?s = Some hs"
    by (auto simp: StopIdleTimer_def)
  have fl: "received (snd (flush ?s mb1)) = mb_storage mb1"
    using h(1) by (simp add: flush_def)
  obtain mbf evf where f: "flush ?s mb1 = (mbf, evf)" by (cases "flush ?s mb1")
  with fl have rf: "received evf = mb_storage mb1" by simp
  from f have tl: "mb_total_length mbf = mb_total_length mb1" by (auto simp: flush_def)
  show ?thesis
  proof (cases "need_feedback (remote_settings ?s) \<and> 0 < mb_total_length mbf")
    case True
    with t f hs have "Consume fl env (map Msg bufs) False r
        = Inr (0, Some (StartIdleTimer ((?s\<lparr> local_consumed := local_consumed ?s + mb_total_length mbf \<rparr>)
                 \<lparr> host_socket := Some (WriteToHostSocket
                     [(\<lparr> fm_stream_id = stream_id (remote_settings ?s), fm_source_stream_id = id' ?s,
                 frame_type = FRAME_TYPE_FEEDBACK, has_continuation = False,
                 feedback_consumed_size = local_consumed ?s + mb_total_length mbf \<rparr>, [])] hs) \<rparr>)),
               evs1 @ evf)"
      by (simp add: Consume_def Let_def SendFeedback_def)
    moreover from rf d have "received (evs1 @ evf) = bufs" by (simp add: received_append)
    ultimately show ?thesis by blast
  next
    case False
    with t f have "Consume fl env (map Msg bufs) False r
        = Inr (0, Some (StartIdleTimer ?s), evs1 @ evf)"
      by (auto simp: Consume_def Let_def)
    moreover from rf d have "received (evs1 @ evf) = bufs" by (simp add: received_append)
    ultimately show ?thesis by blast
  qed
qed

text \<open>
  C7: one \<open>Write\<close> of a list of payload buffers with a segment size \<open>M > 0\<close>, on a
  connected sender whose peer is writable. \<open>CutMessageIntoFileDescriptor\<close> returns the
  number of bytes, and the frames it hands to the host socket, in the order written, are
  those the specification describes: a buffer of at most \<open>M\<close> bytes is one frame with
  \<open>has_continuation = false\<close>, a longer one is cut into \<open>M\<close>-byte prefixes with
  \<open>has_continuation = true\<close> except the final piece, which carries
  \<open>has_continuation = false\<close>. A receiver with an empty reassembly buffer and a running
  queue that gets these frames through \<open>OnReceived\<close> queues exactly the buffers written,
  one message per continuation run, and its consumer hands exactly these messages, in
  order, to the handler.
\<close>

theorem C7_segmentation_reassembly:
  assumes "stream_write_max_segment_size fl \<noteq> 0"
    and "host_socket s = Some h" and "writable (remote_settings s)"
    and "host_socket r \<noteq> None" and "\<not> queue_stopped r" and "pending_buf r = None"
    and "handler (options r)" and "\<not> parse_rpc_response r"
    and "messages_in_batch (options r) \<noteq> 0"
  shows "\<exists>ws so evs.
      CutMessageIntoFileDescriptor fl bufs s
        = Some (Inr (int (sum_list (map length bufs)), None,
                     s\<lparr> host_socket := Some (h\<lparr> writes := writes h @ ws \<rparr>) \<rparr>))
    \<and> concat ws
        = concat (map (spec_frames (unat (stream_write_max_segment_size fl))
             \<lparr> fm_stream_id = stream_id (remote_settings s),
               fm_source_stream_id = id' s, frame_type = FRAME_TYPE_DATA,
               has_continuation = False, feedback_consumed_size = 0 \<rparr>) bufs)
    \<and> receive_frames fl env (concat ws) sock r
        = Inr (r\<lparr> consumer_queue := consumer_queue r @ map Msg bufs \<rparr>)
    \<and> Consume fl cenv (map Msg bufs) False
          (r\<lparr> consumer_queue := consumer_queue r @ map Msg bufs \<rparr>) = Inr (0, so, evs)
    \<and> received evs = bufs"
proof -
  let ?fm = "\<lparr> fm_stream_id = stream_id (remote_settings s),
               fm_source_stream_id = id' s, frame_type = FRAME_TYPE_DATA,
               has_continuation = False, feedback_consumed_size = 0 \<rparr>"
  let ?r' = "r\<lparr> consumer_queue := consumer_queue r @ map Msg bufs \<rparr>"
  from CutMessageIntoFileDescriptor_frames [OF assms(1-3), of bufs] obtain ws where
    a: "CutMessageIntoFileDescriptor fl bufs s
        = Some (Inr (int (sum_list (map length bufs)), None,
                     s\<lparr> host_socket := Some (h\<lparr> writes := writes h @ ws \<rparr>) \<rparr>))"
    and b: "concat ws = concat (map (spec_frames (unat (stream_write_max_segment_size fl)) ?fm) bufs)"
    by blast
  have ft: "frame_type ?fm = FRAME_TYPE_DATA" by simp
  from receive_all_frames [OF ft assms(4-6), of fl env _ bufs sock] b
  have c: "receive_frames fl env (concat ws) sock r = Inr ?r'" by simp
  from assms(4,7-9) have "handler (options ?r')" "\<not> parse_rpc_response ?r'"
    "messages_in_batch (options ?r') \<noteq> 0" "host_socket ?r' \<noteq> None"
    by simp_all
  from Consume_delivers [OF this, of fl cenv bufs] obtain so evs where
    d: "Consume fl cenv (map Msg bufs) False ?r' = Inr (0, so, evs)" and e: "received evs = bufs"
    by blast
  from a b c d e show ?thesis by blast
qed

lemma cut_segments_example:
  "cut_segments 4 fm ''abcdefghij'' st
     = Some (st\<lparr> out := [], len := len st + 10,
                 host := (host st)\<lparr> writes := writes (host st)
                   @ [out st @ [(fm\<lparr> has_continuation := True \<rparr>, ''abcd'')],
                      [(fm\<lparr> has_continuation := True \<rparr>, ''efgh'')],
                      [(fm\<lparr> has_continuation := False \<rparr>, ''ij'')]] \<rparr> \<rparr>)"
  by (subst cut_segments.simps, simp add: Let_def WriteToHostSocket_def)+

theorem C7_segmentation_reassembly_witness:
  "CutMessageIntoFileDescriptor example_flags [''abcdefghij''] sender_stream
     = Some (Inr (10, None,
         sender_stream\<lparr> host_socket := Some (example_socket\<lparr> writes :=
           [[example_frame True ''abcd''], [example_frame True ''efgh''],
            [example_frame False ''ij'']] \<rparr>) \<rparr>))
   \<and> spec_frames 4 (fst (example_frame False [])) ''abcdefghij''
       = [example_frame True ''abcd'', example_frame True ''efgh'', example_frame False ''ij'']
   \<and> receive_frames example_flags \<lparr> add_stream_rc = 0, start_urgent_rc = 0 \<rparr>
        [example_frame True ''abcd'', example_frame True ''efgh'', example_frame False ''ij'']
        example_socket receiver_stream
       = Inr (receiver_stream\<lparr> consumer_queue := [Msg ''abcdefghij''] \<rparr>)
   \<and> Consume example_flags \<lparr> rpc_response = Processed None, consume_start_urgent_rc = 0 \<rparr>
        [Msg ''abcdefghij''] False (receiver_stream\<lparr> consumer_queue := [Msg ''abcdefghij''] \<rparr>)
       = Inr (0, Some (receiver_stream\<lparr> consumer_queue := [Msg ''abcdefghij''] \<rparr>),
              [(SameTask, on_received_messages 9 [''abcdefghij''])])"
proof -
  let ?renv = "\<lparr> add_stream_rc = 0, start_urgent_rc = 0 \<rparr>"
  let ?cenv = "\<lparr> rpc_response = Processed None, consume_start_urgent_rc = 0 \<rparr>"
  let ?frames = "[example_frame True ''abcd'', example_frame True ''efgh'',
                  example_frame False ''ij'']"
  let ?r' = "receiver_stream\<lparr> consumer_queue := [Msg ''abcdefghij''] \<rparr>"
  have h1: "stream_write_max_segment_size example_flags \<noteq> 0"
    by (simp add: example_flags_def)
  have h2: "host_socket sender_stream = Some example_socket"
    and h3: "writable (remote_settings sender_stream)"
    by (simp_all add: sender_stream_def)
  have h4: "host_socket receiver_stream \<noteq> None" and h5: "\<not> queue_stopped receiver_stream"
    and h6: "pending_buf receiver_stream = None" and h7: "handler (options receiver_stream)"
    and h8: "\<not> parse_rpc_response receiver_stream"
    and h9: "messages_in_batch (options receiver_stream) \<noteq> 0"
    by (simp_all add: receiver_stream_def example_stream_def example_options_def Stream_ctor_def)
  have sf: "spec_frames 4 (fst (example_frame False [])) ''abcdefghij'' = ?frames"
    by (simp add: spec_frames_def spec_pieces.simps example_frame_def)
  have cut: "CutMessageIntoFileDescriptor example_flags [''abcdefghij''] sender_stream
     = Some (Inr (10, None,
         sender_stream\<lparr> host_socket := Some (example_socket\<lparr> writes :=
           [[example_frame True ''abcd''], [example_frame True ''efgh''],
            [example_frame False ''ij'']] \<rparr>) \<rparr>))"
    by (simp add: CutMessageIntoFileDescriptor_def cut_segments_example example_flags_def
        sender_stream_def example_stream_def example_socket_def example_frame_def
        Stream_ctor_def)
  from C7_segmentation_reassembly [OF h1 h2 h3 h4 h5 h6 h7 h8 h9,
      of "[''abcdefghij'']" ?renv example_socket ?cenv]
  obtain ws so evs where
    w1: "concat ws = concat (map (spec_frames (unat (stream_write_max_segment_size example_flags))
             \<lparr> fm_stream_id = stream_id (remote_settings sender_stream),
               fm_source_stream_id = id' sender_stream, frame_type = FRAME_TYPE_DATA,
               has_continuation = False, feedback_consumed_size = 0 \<rparr>) [''abcdefghij''])"
    and w2: "receive_frames example_flags ?renv (concat ws) example_socket receiver_stream
        = Inr (receiver_stream\<lparr> consumer_queue := consumer_queue receiver_stream
                 @ map Msg [''abcdefghij''] \<rparr>)"
    and w3: "Consume example_flags ?cenv (map Msg [''abcdefghij'']) False
          (receiver_stream\<lparr> consumer_queue := consumer_queue receiver_stream
                 @ map Msg [''abcdefghij''] \<rparr>) = Inr (0, so, evs)"
    and w4: "received evs = [''abcdefghij'']"
    by blast
  have fm: "\<lparr> fm_stream_id = stream_id (remote_settings sender_stream),
               fm_source_stream_id = id' sender_stream, frame_type = FRAME_TYPE_DATA,
               has_continuation = False, feedback_consumed_size = 0 \<rparr>
             = fst (example_frame False [])"
    by (simp add: example_frame_def sender_stream_def example_stream_def Stream_ctor_def)
  have q: "consumer_queue receiver_stream = []"
    by (simp add: receiver_stream_def example_stream_def Stream_ctor_def)
  from w1 fm sf have "concat ws = ?frames"
    by (simp add: example_flags_def)
  with w2 q have rcv: "receive_frames example_flags ?renv ?frames example_socket receiver_stream
      = Inr ?r'" by simp
  have con: "Consume example_flags ?cenv [Msg ''abcdefghij''] False ?r'
       = Inr (0, Some ?r', [(SameTask, on_received_messages 9 [''abcdefghij''])])"
    by (simp add: Consume_def push_def flush_def StopIdleTimer_def StartIdleTimer_def
        receiver_stream_def example_stream_def example_options_def Stream_ctor_def Let_def)
  from cut sf rcv con show ?thesis by simp
qed

section \<open>The consumer's feedback\<close>

text \<open>
  C8, as the claim states it, has the consumer add the bytes of a batch to
  \<open>local_consumed\<close> whether or not the peer asked for feedback. The code does both
  steps, or neither: for a stream whose peer did not ask for feedback, a batch that
  delivers the 3-byte message \<open>abc\<close> to the handler leaves \<open>local_consumed\<close> at 0.
\<close>

theorem C8_counterexample:
  "need_feedback (remote_settings ((example_stream 0 0 0)\<lparr> host_socket := Some example_socket \<rparr>))
     = False
   \<and> Consume example_flags \<lparr> rpc_response = Processed None, consume_start_urgent_rc = 0 \<rparr>
        [Msg ''abc''] False ((example_stream 0 0 0)\<lparr> host_socket := Some example_socket \<rparr>)
       = Inr (0, Some ((example_stream 0 0 0)\<lparr> host_socket := Some example_socket \<rparr>),
              [(SameTask, on_received_messages 7 [''abc''])])
   \<and> total_message_length [Msg ''abc''] = 3
   \<and> local_consumed ((example_stream 0 0 0)\<lparr> host_socket := Some example_socket \<rparr>) = 0"
  by (simp add: Consume_def push_def flush_def StopIdleTimer_def StartIdleTimer_def
      example_stream_def example_options_def Stream_ctor_def Let_def)

text \<open>
  C8, amended: one dispatch of the consumer on a running queue. Let \<open>s1\<close> and \<open>mb\<close> be
  the stream and the batcher when the loop over the tasks ends. If the peer requested
  feedback (\<open>need_feedback\<close>) and the batch delivered a non-zero total, the total is added
  to \<open>local_consumed\<close> and exactly one write of exactly one FEEDBACK frame, carrying the
  new absolute \<open>local_consumed\<close>, goes to the host socket. Otherwise (no feedback
  requested, or zero bytes) \<open>local_consumed\<close> and the host socket are unchanged. On a
  stream that is not waiting for its RPC response the total is the sum of the lengths of
  the messages of the dispatch, and \<open>s1\<close> has the counters, the settings and the host
  socket the stream had before.
\<close>

theorem C8_consumer_feedback:
  assumes "Consume_tasks fl env iter
             (StopIdleTimer s,
              \<lparr> mb_storage = [], mb_cap = messages_in_batch (options (StopIdleTimer s)),
                mb_total_length = 0 \<rparr>, False, []) = Inr (s1, mb, ht, evs1)"
    and "Consume fl env iter False s = Inr (rc, so, evs)"
  shows "(\<exists>s'. so = Some s' \<and> rc = 0
           \<and> (if need_feedback (remote_settings s1) \<and> mb_total_length mb \<noteq> 0
               then local_consumed s' = local_consumed s1 + mb_total_length mb
                    \<and> (\<exists>h. host_socket s1 = Some h
                          \<and> host_socket s' = Some (h\<lparr> writes := writes h
                                @ [[(\<lparr> fm_stream_id = stream_id (remote_settings s1),
                                      fm_source_stream_id = id' s1,
                                      frame_type = FRAME_TYPE_FEEDBACK, has_continuation = False,
                                      feedback_consumed_size = local_consumed s' \<rparr>, [])]] \<rparr>))
               else local_consumed s' = local_consumed s1 \<and> host_socket s' = host_socket s1))
       \<and> (\<not> parse_rpc_response s \<longrightarrow>
             mb_total_length mb = total_message_length iter
             \<and> local_consumed s1 = local_consumed s \<and> host_socket s1 = host_socket s
             \<and> remote_settings s1 = remote_settings s \<and> id' s1 = id' s)"
proof -
  note a = Consume_feedback [OF assms]
  have b: "mb_total_length mb = total_message_length iter
             \<and> local_consumed s1 = local_consumed s \<and> host_socket s1 = host_socket s
             \<and> remote_settings s1 = remote_settings s \<and> id' s1 = id' s"
    if np: "\<not> parse_rpc_response s"
  proof -
    from np have "\<not> parse_rpc_response (StopIdleTimer s)"
      by (simp add: StopIdleTimer_fields)
    from Consume_tasks_plain [OF this assms(1)] show ?thesis
      by (simp add: StopIdleTimer_fields)
  qed
  from a b show ?thesis by blast
qed

theorem C8_consumer_feedback_witness:
  "Consume example_flags \<lparr> rpc_response = Processed None, consume_start_urgent_rc = 0 \<rparr>
     [Msg ''abc'', TIMEOUT_TASK, Msg ''de''] False feedback_stream
     = Inr (0, Some (feedback_stream\<lparr> local_consumed := 5,
               host_socket := Some (example_socket\<lparr> writes :=
                 [[(\<lparr> fm_stream_id = 9, fm_source_stream_id = 7,
                     frame_type = FRAME_TYPE_FEEDBACK, has_continuation = False,
                     feedback_consumed_size = 5 \<rparr>, [])]] \<rparr>) \<rparr>),
            [(SameTask, on_received_messages 7 [''abc'', ''de''])])
   \<and> total_message_length [Msg ''abc'', TIMEOUT_TASK, Msg ''de''] = 5
   \<and> local_consumed (feedback_stream\<lparr> local_consumed := 5,
               host_socket := Some (example_socket\<lparr> writes :=
                 [[(\<lparr> fm_stream_id = 9, fm_source_stream_id = 7,
                     frame_type = FRAME_TYPE_FEEDBACK, has_continuation = False,
                     feedback_consumed_size = 5 \<rparr>, [])]] \<rparr>) \<rparr>)
       = local_consumed feedback_stream + 5"
proof -
  let ?env = "\<lparr> rpc_response = Processed None, consume_start_urgent_rc = 0 \<rparr>"
  let ?iter = "[Msg ''abc'', TIMEOUT_TASK, Msg ''de'']"
  let ?s' = "feedback_stream\<lparr> local_consumed := 5,
               host_socket := Some (example_socket\<lparr> writes :=
                 [[(\<lparr> fm_stream_id = 9, fm_source_stream_id = 7,
                     frame_type = FRAME_TYPE_FEEDBACK, has_continuation = False,
                     feedback_consumed_size = 5 \<rparr>, [])]] \<rparr>) \<rparr>"
  have l: "Consume_tasks example_flags ?env ?iter
             (StopIdleTimer feedback_stream,
              \<lparr> mb_storage = [],
                mb_cap = messages_in_batch (options (StopIdleTimer feedback_stream)),
                mb_total_length = 0 \<rparr>, False, [])
           = Inr (feedback_stream,
                  \<lparr> mb_storage = [''abc'', ''de''], mb_cap = 128, mb_total_length = 5 \<rparr>, True, [])"
    by (simp add: push_def flush_def StopIdleTimer_def feedback_stream_def example_stream_def
        example_options_def Stream_ctor_def Let_def)
  have c: "Consume example_flags ?env ?iter False feedback_stream
             = Inr (0, Some ?s', [(SameTask, on_received_messages 7 [''abc'', ''de''])])"
    by (simp add: Consume_def push_def flush_def SendFeedback_def WriteToHostSocket_def
        StopIdleTimer_def StartIdleTimer_def feedback_stream_def example_stream_def
        example_socket_def example_options_def Stream_ctor_def Let_def)
  have np: "\<not> parse_rpc_response feedback_stream"
    by (simp add: feedback_stream_def example_stream_def Stream_ctor_def)
  from C8_consumer_feedback [OF l c] np
  have "mb_total_length \<lparr> mb_storage = [''abc'', ''de''], mb_cap = 128, mb_total_length = 5 \<rparr>
          = total_message_length ?iter"
    by blast
  then have t: "total_message_length ?iter = 5" by simp
  have "local_consumed ?s' = local_consumed feedback_stream + 5"
    by (simp add: feedback_stream_def example_stream_def Stream_ctor_def)
  with c t show ?thesis by simp
qed

section \<open>Close\<close>

lemma Close_closed:
  "closed s \<Longrightarrow> Close fl start_rc code reason s = Inr (s\<lparr> fake_socket_failed := True \<rparr>, [])"
  by (simp add: Close_def Let_def)

lemma Close_first:
  assumes "\<not> closed s" and "Close fl start_rc code reason s = Inr (s', evs)"
  shows "closed s'" and "error_code s' = code" and "error_text s' = error_text s @ reason"
    and "options s' = options s" and "id' s' = id' s" and "fake_socket_failed s'"
  using assms
  by (auto simp: Close_def Let_def split: if_splits sum.splits)

lemma closes_closed:
  "closed s \<Longrightarrow> closes fl cs s = Inr (s', evs) \<Longrightarrow>
     closed s' \<and> error_code s' = error_code s \<and> error_text s' = error_text s
     \<and> options s' = options s \<and> id' s' = id' s \<and> evs = []"
proof (induction cs arbitrary: s evs)
  case Nil
  then show ?case by simp
next
  case (Cons c cs)
  obtain code reason start_rc where c: "c = (code, reason, start_rc)"
    by (cases c) auto
  let ?s1 = "s\<lparr> fake_socket_failed := True \<rparr>"
  from Cons.prems c have r: "closes fl cs ?s1 = Inr (s', evs)"
    by (auto simp: Close_closed split: sum.splits)
  from Cons.prems(1) have "closed ?s1" by simp
  from Cons.IH [OF this r] show ?case by simp
qed

text \<open>
  C9: a sequence of one or more \<open>Close\<close> calls on a stream that is not closed and has an
  empty error text (as \<open>Create\<close> leaves it). The stream ends closed with the error code
  and the reason of the first call; only the first call fires callbacks. When the queue
  then stops, \<open>Consume\<close> deletes the stream and invokes, if a handler is installed,
  \<open>on_failed\<close> with the latched code and text exactly when the code is not 0, followed by
  \<open>on_closed\<close>, each once.
\<close>

theorem C9_close_idempotent:
  assumes "\<not> closed s" and "error_text s = []"
    and "closes fl ((code, reason, start_rc) # cs) s = Inr (s', evs)"
  shows "closed s' \<and> error_code s' = code \<and> error_text s' = reason
       \<and> (\<exists>s1. Close fl start_rc code reason s = Inr (s1, evs))
       \<and> Consume fl env iter True s'
           = Inr (0, None,
               if handler (options s)
               then (if code \<noteq> 0 then [(SameTask, on_failed (id' s) code reason)] else [])
                    @ [(SameTask, on_closed (id' s))]
               else [])"
proof -
  from assms(3) obtain s1 evs1 evs2 where
    c: "Close fl start_rc code reason s = Inr (s1, evs1)"
    and r: "closes fl cs s1 = Inr (s', evs2)" and e: "evs = evs1 @ evs2"
    by (auto split: sum.splits)
  note f = Close_first [OF assms(1) c]
  from closes_closed [OF f(1) r] f assms(2) have
    l: "closed s'" "error_code s' = code" "error_text s' = reason"
       "options s' = options s" "id' s' = id' s" "evs2 = []"
    by simp_all
  from c e l(6) have x: "\<exists>s1. Close fl start_rc code reason s = Inr (s1, evs)" by simp
  have "Consume fl env iter True s'
           = Inr (0, None,
               if handler (options s)
               then (if code \<noteq> 0 then [(SameTask, on_failed (id' s) code reason)] else [])
                    @ [(SameTask, on_closed (id' s))]
               else [])"
    by (simp add: Consume_def Let_def StopIdleTimer_fields l)
  with l x show ?thesis by simp
qed

theorem C9_close_idempotent_witness:
  "\<not> closed (example_stream 0 10 10) \<and> error_text (example_stream 0 10 10) = []
   \<and> closes example_flags
        [(ECONNRESET, ''Received RST frame'', 0), (0, ''Local close'', 0),
         (EINVAL, ''again'', 0)] (example_stream 0 10 10)
       = Inr ((example_stream 0 10 10)\<lparr> fake_socket_failed := True, closed := True,
                error_code := ECONNRESET, error_text := ''Received RST frame'',
                connect_meta := \<lparr> on_connect = None, connect_arg = 0, ec = ECONNRESET \<rparr> \<rparr>, [])
   \<and> Consume example_flags \<lparr> rpc_response = Processed None, consume_start_urgent_rc = 0 \<rparr> []
        True
        ((example_stream 0 10 10)\<lparr> fake_socket_failed := True, closed := True,
                error_code := ECONNRESET, error_text := ''Received RST frame'',
                connect_meta := \<lparr> on_connect = None, connect_arg = 0, ec = ECONNRESET \<rparr> \<rparr>)
       = Inr (0, None, [(SameTask, on_failed 7 ECONNRESET ''Received RST frame''),
                        (SameTask, on_closed 7)])"
proof -
  let ?s' = "(example_stream 0 10 10)\<lparr> fake_socket_failed := True, closed := True,
                error_code := ECONNRESET, error_text := ''Received RST frame'',
                connect_meta := \<lparr> on_connect = None, connect_arg = 0, ec = ECONNRESET \<rparr> \<rparr>"
  have p1: "\<not> closed (example_stream 0 10 10)" and p2: "error_text (example_stream 0 10 10) = []"
    by (simp_all add: example_stream_fields)
  have p3: "closes example_flags
        ((ECONNRESET, ''Received RST frame'', 0) # [(0, ''Local close'', 0),
         (EINVAL, ''again'', 0)]) (example_stream 0 10 10) = Inr (?s', [])"
    by (simp add: Close_def TriggerOnConnectIfNeed_def Let_def example_stream_def Stream_ctor_def)
  have h: "handler (options (example_stream 0 10 10))" and i: "id' (example_stream 0 10 10) = 7"
    and n: "ECONNRESET \<noteq> 0"
    by (simp_all add: example_stream_fields example_options_def ECONNRESET_def)
  from C9_close_idempotent [OF p1 p2 p3,
      of "\<lparr> rpc_response = Processed None, consume_start_urgent_rc = 0 \<rparr>" "[]"] h i n
  have "Consume example_flags \<lparr> rpc_response = Processed None, consume_start_urgent_rc = 0 \<rparr> []
        True ?s'
       = Inr (0, None, [(SameTask, on_failed 7 ECONNRESET ''Received RST frame''),
                        (SameTask, on_closed 7)])"
    by simp
  with p1 p2 p3 show ?thesis by simp
qed

section \<open>Waiting on an unknown stream\<close>

text \<open>
  C10, as the claim states it, has the callback of \<open>StreamWait\<close> on an unknown stream id
  always dispatched on a separate task. When \<open>bthread_start_background\<close> fails (here
  with 11) the code logs a FATAL line and calls \<open>on_writable\<close> itself, on the caller's
  task.
\<close>

theorem C10_counterexample:
  "Address Map.empty 7 = None
   \<and> StreamWait example_flags \<lparr> id_create_rc = 0, timer_add_rc = 0, start_background_rc = 11 \<rparr>
        Map.empty 7 False 1 2
       = Inr (Map.empty, [(SameTask, on_writable_call 1 7 2 EINVAL)])
   \<and> SameTask \<noteq> Background (usercode_attr example_flags)"
  by (simp add: Address_def StreamWait_def CHECK_def RunOnWritable_def example_flags_def)

text \<open>
  C10, amended: for a stream id the registry does not resolve, the blocking \<open>StreamWait\<close>
  returns \<open>EINVAL\<close> and leaves the registry as it is (no waiter is parked); the callback
  form leaves the registry as it is and invokes \<open>on_writable(id, arg, EINVAL)\<close> exactly
  once: on a background task when \<open>bthread_start_background\<close> succeeds, and otherwise,
  after a FATAL log line, on the calling task (when FATAL log lines abort the process,
  the call ends there).
\<close>

theorem C10_wait_on_unknown_stream:
  assumes "Address reg i = None"
  shows "StreamWait_blocking fl env reg i due = Inr (reg, Returned EINVAL)
       \<and> StreamWait fl env reg i due f arg
           = (if start_background_rc env = 0
              then Inr (reg, [(Background (usercode_attr fl), on_writable_call f i arg EINVAL)])
              else if crash_on_fatal_log fl then Inl FatalLog
              else Inr (reg, [(SameTask, on_writable_call f i arg EINVAL)]))"
  using assms
  by (simp add: StreamWait_blocking_def StreamWait_def CHECK_def RunOnWritable_def)

theorem C10_wait_on_unknown_stream_witness:
  "Address Map.empty 7 = None
   \<and> StreamWait_blocking example_flags
        \<lparr> id_create_rc = 0, timer_add_rc = 0, start_background_rc = 0 \<rparr> Map.empty 7 False
       = Inr (Map.empty, Returned EINVAL)
   \<and> StreamWait example_flags \<lparr> id_create_rc = 0, timer_add_rc = 0, start_background_rc = 0 \<rparr>
        Map.empty 7 False 1 2
       = Inr (Map.empty, [(Background BTHREAD_ATTR_NORMAL, on_writable_call 1 7 2 EINVAL)])"
proof -
  have a: "Address Map.empty 7 = None" by (simp add: Address_def)
  from C10_wait_on_unknown_stream [OF a, of example_flags
      "\<lparr> id_create_rc = 0, timer_add_rc = 0, start_background_rc = 0 \<rparr>" False 1 2] a
  show ?thesis by (simp add: usercode_attr_def example_flags_def)
qed

end
